theory Spec2Isabelle
  imports Main "HOL-Library.AList"
begin

section \<open>Python values, dictionaries and sets\<close>

text \<open>
  Scalars that occur as primary-key values and as arguments of \<open>KeyError\<close>:
  \<open>None\<close>, a \<open>str\<close> or an \<open>int\<close>.
\<close>

datatype pyval = PNone | PStr string | PInt int

text \<open>
  A Python \<open>dict\<close> is an association list in insertion order with distinct keys:
  \<open>map_of\<close> is the lookup, \<open>AList.update\<close> the item assignment (an existing key keeps
  its position, a new key goes to the end), \<open>AList.delete\<close> the deletion.
  A Python \<open>set\<close> of slugs is a list without duplicates; the order of the list stands
  for the iteration order of the set.
\<close>

definition keys :: "('k \<times> 'v) list \<Rightarrow> 'k list" where
  "keys d = map fst d"

text \<open>\<open>{**d1, **d2}\<close>: the entries of \<open>d2\<close> assigned, in order, into a copy of \<open>d1\<close>.\<close>

definition dict_merge :: "('k \<times> 'v) list \<Rightarrow> ('k \<times> 'v) list \<Rightarrow> ('k \<times> 'v) list" where
  "dict_merge d1 d2 = foldl (\<lambda>d kv. AList.update (fst kv) (snd kv) d) d1 d2"

text \<open>\<open>s.add(x)\<close>, \<open>s.discard(x)\<close> and \<open>s.difference_update(d)\<close> for a dict \<open>d\<close>.\<close>

definition set_add :: "'a \<Rightarrow> 'a list \<Rightarrow> 'a list" where
  "set_add x s = (if x \<in> set s then s else s @ [x])"

definition set_discard :: "'a \<Rightarrow> 'a list \<Rightarrow> 'a list" where
  "set_discard x s = removeAll x s"

definition difference_update :: "'a list \<Rightarrow> ('a \<times> 'v) list \<Rightarrow> 'a list" where
  "difference_update s d = filter (\<lambda>x. x \<notin> set (keys d)) s"

text \<open>Truthiness of an optional string: \<open>None\<close> and \<open>''\<close> are false.\<close>

definition str_value :: "string option \<Rightarrow> string" where
  "str_value v = (case v of None \<Rightarrow> [] | Some s \<Rightarrow> s)"

definition truthy :: "string option \<Rightarrow> bool" where
  "truthy v = (str_value v \<noteq> [])"


section \<open>Model classes and primary keys\<close>

datatype model_type =
    Root | Course | Session | Material | Lesson | Page | Solution
  | StaticFile | SessionPage | RunYear | License

definition class_name :: "model_type \<Rightarrow> string" where
  "class_name t = (case t of
       Root \<Rightarrow> ''Root'' | Course \<Rightarrow> ''Course'' | Session \<Rightarrow> ''Session''
     | Material \<Rightarrow> ''Material'' | Lesson \<Rightarrow> ''Lesson'' | Page \<Rightarrow> ''Page''
     | Solution \<Rightarrow> ''Solution'' | StaticFile \<Rightarrow> ''StaticFile''
     | SessionPage \<Rightarrow> ''SessionPage'' | RunYear \<Rightarrow> ''RunYear''
     | License \<Rightarrow> ''License'')"

text \<open>
  \<open>Model.__init_subclass__\<close>: no class of the module sets \<open>model_slug\<close> itself, so it is
  \<open>re.sub('([A-Z])', r'-\1', cls.__name__).lower().lstrip('-')\<close>.
\<close>

definition is_upper :: "char \<Rightarrow> bool" where
  "is_upper c = (65 \<le> (of_char c :: nat) \<and> (of_char c :: nat) \<le> 90)"

fun dash_upper :: "string \<Rightarrow> string" where
  "dash_upper [] = []"
| "dash_upper (c # cs) =
     (if is_upper c then CHR ''-'' # c # dash_upper cs else c # dash_upper cs)"

fun lower_char :: "char \<Rightarrow> char" where
  "lower_char (Char b0 b1 b2 b3 b4 b5 b6 b7) =
     (if is_upper (Char b0 b1 b2 b3 b4 b5 b6 b7) then Char b0 b1 b2 b3 b4 True b6 b7
      else Char b0 b1 b2 b3 b4 b5 b6 b7)"

definition model_slug :: "model_type \<Rightarrow> string" where
  "model_slug t = dropWhile (\<lambda>c. c = CHR ''-'') (map lower_char (dash_upper (class_name t)))"

text \<open>The class attribute \<open>pk_name\<close>; \<open>Root\<close> sets it to \<open>None\<close>.\<close>

definition pk_name :: "model_type \<Rightarrow> string option" where
  "pk_name t = (case t of
       Root \<Rightarrow> None | Solution \<Rightarrow> Some ''index'' | StaticFile \<Rightarrow> Some ''filename''
     | RunYear \<Rightarrow> Some ''year'' | _ \<Rightarrow> Some ''slug'')"

text \<open>
  A node of the graph, as far as primary keys go: its class, the value of the attribute
  that \<open>pk_name\<close> names, and its parent. \<open>RootNode\<close> is the \<open>Root\<close> object (its own
  parent in the source).
\<close>

datatype node = RootNode | Node model_type pyval node

fun node_type :: "node \<Rightarrow> model_type" where
  "node_type RootNode = Root"
| "node_type (Node t v p) = t"

text \<open>
  \<open>Model.get_pks\<close> with the overrides of \<open>StaticFile\<close>, \<open>SessionPage\<close>, \<open>RunYear\<close> and
  \<open>Root\<close>.
\<close>

fun get_pks :: "node \<Rightarrow> (string \<times> pyval) list" where
  "get_pks RootNode = []"
| "get_pks (Node t v p) =
     (case t of
        Root \<Rightarrow> []
      | StaticFile \<Rightarrow> AList.update ''filename'' v (get_pks p)
      | SessionPage \<Rightarrow> AList.update ''page_slug'' v (get_pks p)
      | RunYear \<Rightarrow> AList.update ''year'' v (get_pks p)
      | _ \<Rightarrow> AList.update (model_slug t @ ''_'' @ str_value (pk_name t)) v (get_pks p))"

text \<open>
  The parent each class is constructed with: the first entry of \<open>parent_attrs\<close>
  (\<open>Solution\<close>: page; \<open>Page\<close>, \<open>StaticFile\<close>: lesson; \<open>Lesson\<close>, \<open>Session\<close>: course;
  \<open>Material\<close>, \<open>SessionPage\<close>: session), and \<open>Root\<close> for the courses, run years and
  licenses that \<open>Root\<close> creates with \<open>parent=self\<close>.
\<close>

definition parent_type :: "model_type \<Rightarrow> model_type option" where
  "parent_type t = (case t of
       Root \<Rightarrow> None
     | Course \<Rightarrow> Some Root | RunYear \<Rightarrow> Some Root | License \<Rightarrow> Some Root
     | Session \<Rightarrow> Some Course | Lesson \<Rightarrow> Some Course
     | Material \<Rightarrow> Some Session | SessionPage \<Rightarrow> Some Session
     | Page \<Rightarrow> Some Lesson | StaticFile \<Rightarrow> Some Lesson
     | Solution \<Rightarrow> Some Page)"

fun well_parented :: "node \<Rightarrow> bool" where
  "well_parented RootNode = True"
| "well_parented (Node t v p) =
     (parent_type t = Some (node_type p) \<and> (node_type p = Root \<longrightarrow> p = RootNode)
      \<and> well_parented p)"


text \<open>
  The keys of the primary-key dict of a node of each class, when every ancestor has the
  class that \<open>parent_type\<close> gives.
\<close>

definition path_keys :: "model_type \<Rightarrow> string list" where
  "path_keys t = (case t of
      Root \<Rightarrow> []
    | Course \<Rightarrow> [''course_slug'']
    | RunYear \<Rightarrow> [''year'']
    | License \<Rightarrow> [''license_slug'']
    | Session \<Rightarrow> [''course_slug'', ''session_slug'']
    | Lesson \<Rightarrow> [''course_slug'', ''lesson_slug'']
    | Material \<Rightarrow> [''course_slug'', ''session_slug'', ''material_slug'']
    | SessionPage \<Rightarrow> [''course_slug'', ''session_slug'', ''page_slug'']
    | Page \<Rightarrow> [''course_slug'', ''lesson_slug'', ''page_slug'']
    | StaticFile \<Rightarrow> [''course_slug'', ''lesson_slug'', ''filename'']
    | Solution \<Rightarrow> [''course_slug'', ''lesson_slug'', ''page_slug'', ''solution_index''])"


section \<open>Materials, licenses and exceptions\<close>

record material =
  Material_slug :: "string option"
  Material_title :: "string option"
  Material_type :: string
  Material_external_url :: "string option"
  Material_lesson_slug :: "string option"

record license =
  License_slug :: string
  License_url :: string
  License_title :: string

text \<open>
  The exceptions of the module. \<open>NoURLType\<close> is declared as a subclass of \<open>NoURL\<close>, so
  \<open>except NoURL\<close> catches both.
\<close>

datatype exc_arg = ArgType model_type | ArgMaterial material

datatype error =
    NoURL exc_arg
  | NoURLType string
  | ValueError string
  | KeyError pyval
  | TypeError
  | AttributeError string
  | Exception string
  | OtherError string

definition isinstance_NoURL :: "error \<Rightarrow> bool" where
  "isinstance_NoURL e = (case e of NoURL a \<Rightarrow> True | NoURLType k \<Rightarrow> True | _ \<Rightarrow> False)"

text \<open>\<open>Material._validate_lesson_slug\<close>, the after-load hook of \<open>lesson_slug\<close>.\<close>

definition validate_lesson_slug :: "material \<Rightarrow> error + unit" where
  "validate_lesson_slug m =
     (if truthy (Material_lesson_slug m) \<and> truthy (Material_external_url m)
      then Inl (ValueError ''external_url and lesson_slug are incompatible'')
      else Inr ())"


section \<open>URL resolution\<close>

text \<open>
  \<open>Root.url_factories\<close>: a dict from URL type to a dict from model class to a function
  of the primary keys and \<open>_external\<close>. The functions are supplied by the caller and may
  raise.
\<close>

type_synonym pks = "(string \<times> pyval) list"
type_synonym url_factory = "pks \<Rightarrow> bool \<Rightarrow> error + string"
type_synonym url_factories = "(string \<times> (model_type \<times> url_factory) list) list"

text \<open>\<open>Root._url_for\<close>; every caller passes a class as \<open>obj_type\<close>.\<close>

definition Root_url_for ::
  "url_factories \<Rightarrow> model_type \<Rightarrow> pks \<Rightarrow> string \<Rightarrow> bool \<Rightarrow> error + string" where
  "Root_url_for uf obj_type pks url_type external =
     (case map_of uf url_type of
        None \<Rightarrow> Inl (NoURLType url_type)
      | Some urls \<Rightarrow>
          (case map_of urls obj_type of
             None \<Rightarrow> Inl (NoURL (ArgType obj_type))
           | Some url_for \<Rightarrow> url_for pks external))"

text \<open>\<open>Model.get_url\<close>, for the classes that do not override it.\<close>

definition Model_get_url :: "url_factories \<Rightarrow> node \<Rightarrow> string \<Rightarrow> bool \<Rightarrow> error + string" where
  "Model_get_url uf n url_type external =
     Root_url_for uf (node_type n) (get_pks n) url_type external"

text \<open>
  The handler of the property \<open>Model._url\<close> (\<open>try: return self.get_url(external=True)\<close>,
  \<open>except NoURL: return None\<close>), applied to the outcome of the call. The property itself
  follows the methods that \<open>self.get_url\<close> can resolve to.
\<close>

definition except_NoURL :: "error + 'a \<Rightarrow> error + 'a option" where
  "except_NoURL r =
     (case r of
        Inr u \<Rightarrow> Inr (Some u)
      | Inl e \<Rightarrow> if isinstance_NoURL e then Inr None else Inl e)"

text \<open>\<open>License.get_url(*args, **kwargs)\<close>.\<close>

definition License_get_url :: "license \<Rightarrow> string \<Rightarrow> bool \<Rightarrow> error + string" where
  "License_get_url l url_type external = Inr (License_url l)"


section \<open>Dates and times\<close>

text \<open>
  \<open>datetime.date\<close>, \<open>datetime.time\<close> and \<open>datetime.datetime\<close>, as far as the module
  uses them. A \<open>tzinfo\<close> is either a fixed offset in minutes (what \<open>%z\<close> parses) or a
  named zone of the time-zone database (what \<open>dateutil.tz.gettz\<close> returns). A datetime
  is a date and a time of day; the \<open>tzinfo\<close> of the datetime is the one of its time.
\<close>

record date =
  year :: int
  month :: int
  day :: int

datatype tzinfo = FixedOffset int | NamedZone string

record time =
  hour :: int
  minute :: int
  second :: int
  tzinfo :: "tzinfo option"

record datetime =
  date_part :: date
  time_part :: time





section \<open>Courses and the lazy lesson loader\<close>

text \<open>
  A loaded \<open>Lesson\<close>. \<open>Lesson_content_links\<close> lists, in order, the \<open>(lesson, page)\<close>
  pairs for which the content of the lesson's pages asks the \<open>page\<close> URL callback of
  \<open>_sanitize_page_content\<close> while the lesson is loaded; each is a call of
  \<open>course.get_lesson_url(lesson, page=page)\<close>.
\<close>

record lesson =
  Lesson_title :: string
  Lesson_content_links :: "(string \<times> string) list"

text \<open>
  The state of a \<open>Course\<close>: the attributes the operations below read or write.
  \<open>Course_renderer_calls\<close> is not an attribute of the source: it records, in order, the
  slug set of every call of \<open>renderer.get_lessons\<close> made for this course, so that what
  is requested from the renderer can be stated.
\<close>

record course =
  Course_slug :: string
  Course_frozen :: bool
  Course_lessons :: "(string \<times> lesson) list"
  Course_requested_lessons :: "string list"
  Course_vars :: "(string \<times> string) list"
  Course_base_path :: "string option"
  Course_default_time :: "(string \<times> time) list option"
  Course_timezone :: "tzinfo option"
  Course_start_date :: "date option"
  Course_end_date :: "date option"
  Course_renderer_calls :: "string list list"

text \<open>\<open>Course.__init__\<close>, with the fields that loading fills in still unset.\<close>

definition Course_init :: "string \<Rightarrow> string option \<Rightarrow> course" where
  "Course_init slug base_path =
     \<lparr>Course_slug = slug, Course_frozen = False, Course_lessons = [],
      Course_requested_lessons = [], Course_vars = [], Course_base_path = base_path,
      Course_default_time = None, Course_timezone = None,
      Course_start_date = None, Course_end_date = None, Course_renderer_calls = []\<rparr>"

definition Course_node :: "course \<Rightarrow> node" where
  "Course_node c = Node Course (PStr (Course_slug c)) RootNode"

text \<open>
  An operation on a course returns the raised exception or the returned value, and the
  course as the operation left it: a raise keeps the mutations made before it.
\<close>

type_synonym 'a course_result = "(error + 'a) \<times> course"

text \<open>What \<open>get_lesson_url\<close> returns: a URL, or an exception object (returned, not raised).\<close>

datatype url_result = URL string | ExceptionObject error

definition as_URL :: "error + string \<Rightarrow> error + url_result" where
  "as_URL r = (case r of Inl e \<Rightarrow> Inl e | Inr u \<Rightarrow> Inr (URL u))"

text \<open>
  \<open>Course.get_lesson_url(slug, *, page='index', **kw)\<close>; \<open>kw\<close> is given as the
  \<open>url_type\<close> and \<open>external\<close> that \<open>Lesson.get_url(**kw)\<close> receives.
\<close>

definition get_lesson_url ::
  "url_factories \<Rightarrow> course \<Rightarrow> string \<Rightarrow> string \<Rightarrow> string \<times> bool \<Rightarrow> url_result course_result" where
  "get_lesson_url uf c slug page kw =
     (if slug \<in> set (keys (Course_lessons c)) then
        (as_URL (Model_get_url uf (Node Lesson (PStr slug) (Course_node c)) (fst kw) (snd kw)), c)
      else if Course_frozen c then
        (Inr (ExceptionObject (KeyError (PStr slug))), c)
      else
        (as_URL (Root_url_for uf Page
           (dict_merge [(''page_slug'', PStr page), (''lesson_slug'', PStr slug)]
              (get_pks (Course_node c)))
           ''web'' False),
         c\<lparr>Course_requested_lessons := set_add slug (Course_requested_lessons c)\<rparr>))"

text \<open>
  \<open>Material.get_url(url_type='web', **kwargs)\<close>, for a material of course \<open>c\<close>
  (\<open>self.course\<close>).
\<close>

definition Material_get_url ::
  "url_factories \<Rightarrow> course \<Rightarrow> material \<Rightarrow> string \<Rightarrow> url_result course_result" where
  "Material_get_url uf c m url_type =
     (if truthy (Material_lesson_slug m) then
        get_lesson_url uf c (str_value (Material_lesson_slug m)) ''index'' (''web'', False)
      else if url_type \<noteq> ''web'' then (Inl (NoURLType url_type), c)
      else if truthy (Material_external_url m) then
        (Inr (URL (str_value (Material_external_url m))), c)
      else (Inl (NoURL (ArgMaterial m)), c))"

text \<open>
  The field values that the \<open>License\<close> and \<open>Material\<close> objects of the graph were loaded
  with, by node: what \<open>self.url\<close>, \<open>self.lesson_slug\<close> and \<open>self.external_url\<close> read.
\<close>

record loaded_fields =
  License_fields :: "node \<Rightarrow> license"
  Material_fields :: "node \<Rightarrow> material"

text \<open>
  \<open>self.get_url(url_type, external=external)\<close>: the method is looked up in the class of
  \<open>self\<close>. \<open>License\<close> and \<open>Material\<close> define their own; every other class inherits
  \<open>Model.get_url\<close>. \<open>c\<close> is the course that \<open>Material.get_url\<close> works on (\<open>self.course\<close>);
  the other two methods do not touch it.
\<close>

definition self_get_url ::
  "url_factories \<Rightarrow> loaded_fields \<Rightarrow> course \<Rightarrow> node \<Rightarrow> string \<Rightarrow> bool \<Rightarrow>
   url_result course_result" where
  "self_get_url uf fs c n url_type external =
     (case node_type n of
        License \<Rightarrow> (as_URL (License_get_url (License_fields fs n) url_type external), c)
      | Material \<Rightarrow> Material_get_url uf c (Material_fields fs n) url_type
      | _ \<Rightarrow> (as_URL (Model_get_url uf n url_type external), c))"

text \<open>
  The property \<open>Model._url\<close>, which no class overrides:
  \<open>try: return self.get_url(external=True)\<close>, \<open>except NoURL: return None\<close>.
\<close>

definition Model_url ::
  "url_factories \<Rightarrow> loaded_fields \<Rightarrow> course \<Rightarrow> node \<Rightarrow> url_result option course_result" where
  "Model_url uf fs c n =
     (case self_get_url uf fs c n ''web'' True of (r, c') \<Rightarrow> (except_NoURL r, c'))"

text \<open>An example: the fields of a license and of a material that is an external link.\<close>

definition example_fields :: loaded_fields where
  "example_fields =
     \<lparr>License_fields = (\<lambda>n. \<lparr>License_slug = ''cc0'', License_url = ''https://cc0'',
                                License_title = ''CC0''\<rparr>),
      Material_fields = (\<lambda>n. \<lparr>Material_slug = None, Material_title = None,
                                 Material_type = ''link'',
                                 Material_external_url = Some ''https://x'',
                                 Material_lesson_slug = None\<rparr>)\<rparr>"

text \<open>
  The renderer of a course together with the converter that turns what it returns into
  \<open>Lesson\<close> objects: from the slugs, \<open>vars\<close> and \<open>path\<close> to the dict of loaded lessons,
  or to the exception either of them raises. Both are outside this module.
\<close>

type_synonym renderer =
  "string list \<Rightarrow> (string \<times> string) list \<Rightarrow> string option \<Rightarrow> error + (string \<times> lesson) list"

text \<open>
  Modelled from the spec: the sanitizer (\<open>naucse.sanitize\<close>, not part of this module)
  is given the URL callbacks of \<open>_sanitize_page_content\<close> and rewrites the links in the
  content to the URLs they resolve to. So loading the rendered lessons calls \<open>page_url\<close>,
  that is \<open>course.get_lesson_url(lesson, page=page)\<close>, once for every link to a lesson
  page, in order; an exception of the callback ends the load.
\<close>

fun request_links :: "url_factories \<Rightarrow> course \<Rightarrow> (string \<times> string) list \<Rightarrow> unit course_result" where
  "request_links uf c [] = (Inr (), c)"
| "request_links uf c (l # ls) =
     (case get_lesson_url uf c (fst l) (snd l) (''web'', False) of
        (Inl e, c') \<Rightarrow> (Inl e, c')
      | (Inr u, c') \<Rightarrow> request_links uf c' ls)"

text \<open>The loop \<open>for slug in slugs\<close> of \<open>load_lessons\<close>.\<close>

fun merge_lessons :: "(string \<times> lesson) list \<Rightarrow> course \<Rightarrow> string list \<Rightarrow> unit course_result" where
  "merge_lessons new_lessons c [] = (Inr (), c)"
| "merge_lessons new_lessons c (slug # slugs) =
     (case map_of new_lessons slug of
        None \<Rightarrow> (Inl (ValueError (slug @ '' missing from rendered lessons'')), c)
      | Some lesson \<Rightarrow>
          merge_lessons new_lessons
            (c\<lparr>Course_lessons := AList.update slug lesson (Course_lessons c),
               Course_requested_lessons := set_discard slug (Course_requested_lessons c)\<rparr>)
            slugs)"

text \<open>\<open>slugs = set(slugs) - set(self._lessons)\<close>.\<close>

definition slugs_to_load :: "course \<Rightarrow> string list \<Rightarrow> string list" where
  "slugs_to_load c slugs = difference_update (remdups slugs) (Course_lessons c)"

text \<open>\<open>Course.load_lessons(slugs)\<close>.\<close>

definition load_lessons ::
  "url_factories \<Rightarrow> renderer \<Rightarrow> course \<Rightarrow> string list \<Rightarrow> unit course_result" where
  "load_lessons uf rend c slugs =
     (if Course_frozen c then (Inl (Exception ''course is frozen''), c)
      else
        let slugs' = slugs_to_load c slugs;
            c1 = c\<lparr>Course_renderer_calls := Course_renderer_calls c @ [slugs']\<rparr>
        in case rend slugs' (Course_vars c) (Course_base_path c) of
             Inl e \<Rightarrow> (Inl e, c1)
           | Inr new_lessons \<Rightarrow>
               (case request_links uf c1 (concat (map (\<lambda>kv. Lesson_content_links (snd kv)) new_lessons)) of
                  (Inl e, c2) \<Rightarrow> (Inl e, c2)
                | (Inr u, c2) \<Rightarrow> merge_lessons new_lessons c2 slugs'))"

text \<open>
  The \<open>while\<close> loop of \<open>load_all_lessons\<close>, entered with \<open>link_depth\<close>; the message of
  the \<open>ValueError\<close> names the course.
\<close>

function load_all_loop ::
  "url_factories \<Rightarrow> renderer \<Rightarrow> course \<Rightarrow> int \<Rightarrow> unit course_result" where
  "load_all_loop uf rend c link_depth =
     (if Course_requested_lessons c = [] then (Inr (), c)
      else
        let c1 = c\<lparr>Course_requested_lessons :=
                     difference_update (Course_requested_lessons c) (Course_lessons c)\<rparr>
        in if Course_requested_lessons c1 = [] then (Inr (), c1)
           else
             (case load_lessons uf rend c1 (Course_requested_lessons c1) of
                (Inl e, c2) \<Rightarrow> (Inl e, c2)
              | (Inr u, c2) \<Rightarrow>
                  if link_depth - 1 < 0 then
                    (Inl (ValueError (''Lessons in course '' @ Course_slug c2
                                       @ '' are linked too deeply'')), c2)
                  else load_all_loop uf rend c2 (link_depth - 1)))"
  by pat_completeness auto
termination
  by (relation "measure (\<lambda>(uf, rend, c, link_depth). nat link_depth)") auto

text \<open>\<open>Course.load_all_lessons()\<close>.\<close>

definition load_all_lessons :: "url_factories \<Rightarrow> renderer \<Rightarrow> course \<Rightarrow> unit course_result" where
  "load_all_lessons uf rend c =
     (if Course_frozen c then (Inr (), c)
      else load_all_loop uf rend
             (c\<lparr>Course_requested_lessons :=
                  difference_update (Course_requested_lessons c) (Course_lessons c)\<rparr>)
             50)"


text \<open>
  \<open>_LessonsDict\<close>, the value of \<open>course.lessons\<close>: \<open>__getitem__\<close>, \<open>__iter__\<close> (the keys
  it iterates over) and \<open>__len__\<close>.
\<close>

definition LessonsDict_getitem ::
  "url_factories \<Rightarrow> renderer \<Rightarrow> course \<Rightarrow> string \<Rightarrow> lesson course_result" where
  "LessonsDict_getitem uf rend c key =
     (case map_of (Course_lessons c) key of
        Some l \<Rightarrow> (Inr l, c)
      | None \<Rightarrow>
          (case load_lessons uf rend c [key] of
             (Inl e, c') \<Rightarrow> (Inl e, c')
           | (Inr u, c') \<Rightarrow>
               (case map_of (Course_lessons c') key of
                  None \<Rightarrow> (Inl (KeyError (PStr key)), c')
                | Some l \<Rightarrow> (Inr l, c'))))"




text \<open>
  Every lesson that the content of a loaded lesson links to is loaded or requested.
\<close>

definition links_closed :: "course \<Rightarrow> bool" where
  "links_closed c =
     (\<forall>s \<in> set (keys (Course_lessons c)).
        case map_of (Course_lessons c) s of
          None \<Rightarrow> True
        | Some l \<Rightarrow>
            \<forall>lk \<in> set (Lesson_content_links l).
              fst lk \<in> set (keys (Course_lessons c)) \<union> set (Course_requested_lessons c))"

text \<open>
  The invariant of the lazy state: links are closed in the sense above, and a frozen
  course has no requested lessons left. It holds when a course is created and every
  operation that returns normally keeps it.
\<close>

definition course_inv :: "course \<Rightarrow> bool" where
  "course_inv c = (links_closed c \<and> (Course_frozen c \<longrightarrow> Course_requested_lessons c = []))"

text \<open>The \<open>ValueError\<close> of \<open>load_all_lessons\<close> for a course.\<close>

definition too_deep :: "course \<Rightarrow> error" where
  "too_deep c = ValueError (''Lessons in course '' @ Course_slug c @ '' are linked too deeply'')"

text \<open>
  A test fixture: a chain of \<open>n\<close> lessons with the slugs \<open>01\<close>, \<open>02\<close>, ... (two decimal
  digits), each but the last linking the index page of the next; a renderer that renders
  the lessons of the chain; URL factories that know the \<open>web\<close> URL of a page; and a course
  whose only requested lesson is the first of the chain.
\<close>

definition chain_slug :: "nat \<Rightarrow> string" where
  "chain_slug i = [char_of (48 + i div 10), char_of (48 + i mod 10)]"

definition chain_index :: "string \<Rightarrow> nat" where
  "chain_index s = (case s of [a, b] \<Rightarrow> (of_char a - 48) * 10 + (of_char b - 48) | _ \<Rightarrow> 0)"

definition chain_renderer :: "nat \<Rightarrow> renderer" where
  "chain_renderer n slugs vars path =
     Inr (map (\<lambda>s. (s, \<lparr>Lesson_title = s,
                         Lesson_content_links =
                           (if chain_index s < n then [(chain_slug (chain_index s + 1), ''index'')]
                            else [])\<rparr>)) slugs)"

definition chain_url_factories :: url_factories where
  "chain_url_factories = [(''web'', [(Page, \<lambda>pks external. Inr ''/page'')])]"

definition chain_course :: course where
  "chain_course = (Course_init ''chain'' None)\<lparr>Course_requested_lessons := [chain_slug 1]\<rparr>"


section \<open>Sessions and their time\<close>

text \<open>
  What the \<open>time\<close> dict of a session holds for a key: a \<open>datetime.datetime\<close>, a
  \<open>datetime.time\<close>, or some other object (\<open>SessionTimeConverter.load\<close> returns only the
  first two).
\<close>

datatype time_value = DateTimeValue datetime | TimeValue time | OtherValue pyval

record session =
  Session_slug :: string
  Session_date :: "date option"
  Session_time :: "(string \<times> time_value) list option"










section \<open>The root and its indices\<close>

record run_year =
  RunYear_year :: int
  RunYear_runs :: "(string \<times> course) list"

record root =
  Root_courses :: "(string \<times> course) list"
  Root_run_years :: "(int \<times> run_year) list"
  Root_self_study_courses :: "(string \<times> course) list"
  Root_licenses :: "(string \<times> license) list"

text \<open>The dicts of a new \<open>Root\<close>.\<close>

definition Root_init :: root where
  "Root_init = \<lparr>Root_courses = [], Root_run_years = [], Root_self_study_courses = [],
                Root_licenses = []\<rparr>"

text \<open>
  \<open>range(c.start_date.year, c.end_date.year+1)\<close> for a course with a start date \<open>sd\<close>:
  reading \<open>.year\<close> of an end date that is \<open>None\<close> raises.
\<close>

definition year_range :: "date \<Rightarrow> date option \<Rightarrow> error + int list" where
  "year_range sd end_date =
     (case end_date of
        None \<Rightarrow> Inl (AttributeError ''year'')
      | Some ed \<Rightarrow> Inr [year sd..year ed])"

text \<open>\<open>for year in ...: del self.run_years[year][slug]\<close>.\<close>

fun del_run_years :: "string \<Rightarrow> root \<Rightarrow> int list \<Rightarrow> (error + unit) \<times> root" where
  "del_run_years slug r [] = (Inr (), r)"
| "del_run_years slug r (y # ys) =
     (case map_of (Root_run_years r) y of
        None \<Rightarrow> (Inl (KeyError (PInt y)), r)
      | Some ry \<Rightarrow>
          (case map_of (RunYear_runs ry) slug of
             None \<Rightarrow> (Inl (KeyError (PStr slug)), r)
           | Some old \<Rightarrow>
               del_run_years slug
                 (r\<lparr>Root_run_years :=
                      AList.update y (ry\<lparr>RunYear_runs := AList.delete slug (RunYear_runs ry)\<rparr>)
                        (Root_run_years r)\<rparr>)
                 ys))"

text \<open>
  \<open>for year in ...: if year not in self.run_years: ...; self.run_years[year][slug] = course\<close>.
\<close>

fun add_run_years :: "course \<Rightarrow> root \<Rightarrow> int list \<Rightarrow> root" where
  "add_run_years course r [] = r"
| "add_run_years course r (y # ys) =
     (let ry = (case map_of (Root_run_years r) y of
                  None \<Rightarrow> \<lparr>RunYear_year = y, RunYear_runs = []\<rparr>
                | Some ry \<Rightarrow> ry)
      in add_run_years course
           (r\<lparr>Root_run_years :=
                AList.update y
                  (ry\<lparr>RunYear_runs := AList.update (Course_slug course) course (RunYear_runs ry)\<rparr>)
                  (Root_run_years r)\<rparr>)
           ys)"

text \<open>The first half of \<open>Root.add_course\<close>: the body of \<open>if slug in self.courses\<close>.\<close>

definition remove_old_course :: "root \<Rightarrow> string \<Rightarrow> course \<Rightarrow> (error + unit) \<times> root" where
  "remove_old_course r slug old =
     (case Course_start_date old of
        Some sd \<Rightarrow>
          (case year_range sd (Course_end_date old) of
             Inl e \<Rightarrow> (Inl e, r)
           | Inr years \<Rightarrow> del_run_years slug r years)
      | None \<Rightarrow>
          (case map_of (Root_self_study_courses r) slug of
             None \<Rightarrow> (Inl (KeyError (PStr slug)), r)
           | Some c \<Rightarrow>
               (Inr (), r\<lparr>Root_self_study_courses :=
                             AList.delete slug (Root_self_study_courses r)\<rparr>)))"

text \<open>The second half: from \<open>self.courses[slug] = course\<close> on.\<close>

definition insert_course :: "root \<Rightarrow> course \<Rightarrow> (error + unit) \<times> root" where
  "insert_course r course =
     (let slug = Course_slug course;
          r1 = r\<lparr>Root_courses := AList.update slug course (Root_courses r)\<rparr>
      in case Course_start_date course of
           Some sd \<Rightarrow>
             (case year_range sd (Course_end_date course) of
                Inl e \<Rightarrow> (Inl e, r1)
              | Inr years \<Rightarrow> (Inr (), add_run_years course r1 years))
         | None \<Rightarrow>
             (Inr (), r1\<lparr>Root_self_study_courses :=
                           AList.update slug course (Root_self_study_courses r1)\<rparr>))"

text \<open>\<open>Root.add_course(course)\<close>.\<close>

definition add_course :: "root \<Rightarrow> course \<Rightarrow> (error + unit) \<times> root" where
  "add_course r course =
     (case map_of (Root_courses r) (Course_slug course) of
        None \<Rightarrow> insert_course r course
      | Some old \<Rightarrow>
          (case remove_old_course r (Course_slug course) old of
             (Inl e, r1) \<Rightarrow> (Inl e, r1)
           | (Inr u, r1) \<Rightarrow> insert_course r1 course))"

text \<open>
  The years in whose \<open>RunYear\<close> a course is indexed, and the data-model invariant that
  a course has both dates or neither.
\<close>

definition index_years :: "course \<Rightarrow> int list" where
  "index_years c =
     (case Course_start_date c of
        None \<Rightarrow> []
      | Some sd \<Rightarrow> (case Course_end_date c of None \<Rightarrow> [] | Some ed \<Rightarrow> [year sd..year ed]))"

definition dates_paired :: "course \<Rightarrow> bool" where
  "dates_paired c = ((Course_start_date c = None) = (Course_end_date c = None))"

text \<open>The entry of a slug in the run year of a year, if there is one.\<close>

definition run_year_entry :: "root \<Rightarrow> int \<Rightarrow> string \<Rightarrow> course option" where
  "run_year_entry r y slug =
     (case map_of (Root_run_years r) y of
        None \<Rightarrow> None
      | Some ry \<Rightarrow> map_of (RunYear_runs ry) slug)"

text \<open>
  The indices agree with \<open>courses\<close>: every dict has distinct keys; a course is filed
  under its own slug, in \<open>self_study_courses\<close> if it has no start date and in the run
  year of each of its years otherwise; and every entry of an index is that of the course
  which \<open>courses\<close> holds for the slug, in an index where the course belongs.
\<close>

definition indices_consistent :: "root \<Rightarrow> bool" where
  "indices_consistent r =
     (distinct (keys (Root_courses r)) \<and> distinct (keys (Root_run_years r))
      \<and> distinct (keys (Root_self_study_courses r))
      \<and> (\<forall>yr \<in> set (Root_run_years r). distinct (keys (RunYear_runs (snd yr))))
      \<and> (\<forall>sc \<in> set (Root_courses r).
            Course_slug (snd sc) = fst sc \<and> dates_paired (snd sc)
            \<and> (if Course_start_date (snd sc) = None
               then map_of (Root_self_study_courses r) (fst sc) = Some (snd sc)
               else (\<forall>y \<in> set (index_years (snd sc)).
                       run_year_entry r y (fst sc) = Some (snd sc))))
      \<and> (\<forall>sc \<in> set (Root_self_study_courses r).
            map_of (Root_courses r) (fst sc) = Some (snd sc)
            \<and> Course_start_date (snd sc) = None)
      \<and> (\<forall>yr \<in> set (Root_run_years r). \<forall>sc \<in> set (RunYear_runs (snd yr)).
            map_of (Root_courses r) (fst sc) = Some (snd sc)
            \<and> fst yr \<in> set (index_years (snd sc))))"


text \<open>
  The same invariant stated on the lookups, with a set of slugs that are in no index (the
  state between the two halves of \<open>add_course\<close>); \<open>dicts_distinct\<close> says that the dicts
  are dicts.
\<close>

definition dicts_distinct :: "root \<Rightarrow> bool" where
  "dicts_distinct r =
     (distinct (keys (Root_courses r)) \<and> distinct (keys (Root_run_years r))
      \<and> distinct (keys (Root_self_study_courses r))
      \<and> (\<forall>yr \<in> set (Root_run_years r). distinct (keys (RunYear_runs (snd yr)))))"

definition indexed_except :: "string set \<Rightarrow> root \<Rightarrow> bool" where
  "indexed_except X r =
     (dicts_distinct r
      \<and> (\<forall>s c. s \<notin> X \<longrightarrow> map_of (Root_courses r) s = Some c \<longrightarrow>
            Course_slug c = s \<and> dates_paired c
            \<and> (if Course_start_date c = None
               then map_of (Root_self_study_courses r) s = Some c
               else (\<forall>y \<in> set (index_years c). run_year_entry r y s = Some c)))
      \<and> (\<forall>s c. map_of (Root_self_study_courses r) s = Some c \<longrightarrow>
            s \<notin> X \<and> map_of (Root_courses r) s = Some c \<and> Course_start_date c = None)
      \<and> (\<forall>y s c. run_year_entry r y s = Some c \<longrightarrow>
            s \<notin> X \<and> map_of (Root_courses r) s = Some c \<and> y \<in> set (index_years c)))"






section \<open>Primary keys\<close>

lemma model_slug_simps:
  "model_slug Root = ''root''" "model_slug Course = ''course''" "model_slug Session = ''session''"
  "model_slug Material = ''material''" "model_slug Lesson = ''lesson''" "model_slug Page = ''page''"
  "model_slug Solution = ''solution''" "model_slug StaticFile = ''static-file''"
  "model_slug SessionPage = ''session-page''" "model_slug RunYear = ''run-year''"
  "model_slug License = ''license''"
  by (simp_all add: model_slug_def class_name_def is_upper_def)

lemma update_fresh: "k \<notin> set (keys al) \<Longrightarrow> AList.update k v al = al @ [(k, v)]"
  by (induction al) (auto simp: keys_def)

lemma keys_update:
  "keys (AList.update k v al) = (if k \<in> set (keys al) then keys al else keys al @ [k])"
  by (simp add: keys_def update_keys)

lemma keys_get_pks: "well_parented n \<Longrightarrow> keys (get_pks n) = path_keys (node_type n)"
proof (induction n)
  case RootNode
  then show ?case by (simp add: keys_def path_keys_def)
next
  case (Node t v p)
  then have ih: "keys (get_pks p) = path_keys (node_type p)"
    and pt: "parent_type t = Some (node_type p)" by simp_all
  show ?case using pt ih
    by (cases t)
       (simp_all add: parent_type_def path_keys_def keys_update model_slug_simps pk_name_def
          str_value_def)
qed

text \<open>
  Claim C5, as amended. For every node other than the root whose ancestors have the
  classes the source constructs them with, \<open>get_pks\<close> is the primary-key dict of the
  parent followed by exactly one entry, under a key the parent's dict does not have yet,
  holding the node's own key value. The key is \<open><model_slug>_<pk_name>\<close> for the classes
  that inherit \<open>Model.get_pks\<close>; \<open>StaticFile\<close>, \<open>SessionPage\<close> and \<open>RunYear\<close> override it
  and use \<open>filename\<close>, \<open>page_slug\<close> and \<open>year\<close>. (\<open>get_pks\<close> is a function of the node
  alone: no state, no I/O.)
\<close>

theorem get_pks_extends_parent:
  assumes "well_parented (Node t v p)"
  shows "\<exists>k. get_pks (Node t v p) = get_pks p @ [(k, v)]
           \<and> k \<notin> set (keys (get_pks p))
           \<and> k = (case t of StaticFile \<Rightarrow> ''filename'' | SessionPage \<Rightarrow> ''page_slug''
                   | RunYear \<Rightarrow> ''year''
                   | _ \<Rightarrow> model_slug t @ ''_'' @ str_value (pk_name t))"
proof -
  from assms have wp: "well_parented p" and pt: "parent_type t = Some (node_type p)"
    by simp_all
  have ks: "keys (get_pks p) = path_keys (node_type p)" using wp by (rule keys_get_pks)
  show ?thesis using pt ks
    by (cases t)
       (simp_all add: parent_type_def path_keys_def update_fresh model_slug_simps pk_name_def
          str_value_def)
qed

theorem get_pks_extends_parent_witness:
  "well_parented (Node Page (PStr ''index'') (Node Lesson (PStr ''intro'') (Node Course (PStr ''c'') RootNode)))
   \<and> get_pks (Node Page (PStr ''index'') (Node Lesson (PStr ''intro'') (Node Course (PStr ''c'') RootNode)))
       = get_pks (Node Lesson (PStr ''intro'') (Node Course (PStr ''c'') RootNode))
         @ [(''page_slug'', PStr ''index'')]"
proof -
  have h: "well_parented (Node Page (PStr ''index'')
             (Node Lesson (PStr ''intro'') (Node Course (PStr ''c'') RootNode)))"
    by (simp add: parent_type_def)
  show ?thesis using h get_pks_extends_parent [OF h]
    by (simp add: model_slug_simps pk_name_def str_value_def)
qed

text \<open>
  The claim as stated fails for a static file: its new key is \<open>filename\<close>, not
  \<open>static-file_filename\<close>.
\<close>

theorem get_pks_static_file_counterexample:
  "get_pks (Node StaticFile (PStr ''a.png'')
              (Node Lesson (PStr ''intro'') (Node Course (PStr ''c'') RootNode)))
     = [(''course_slug'', PStr ''c''), (''lesson_slug'', PStr ''intro''),
        (''filename'', PStr ''a.png'')]
   \<and> model_slug StaticFile @ ''_'' @ str_value (pk_name StaticFile) = ''static-file_filename''
   \<and> ''static-file_filename'' \<notin> set (keys (get_pks (Node StaticFile (PStr ''a.png'')
              (Node Lesson (PStr ''intro'') (Node Course (PStr ''c'') RootNode)))))"
  by (simp add: model_slug_simps pk_name_def str_value_def keys_def)


section \<open>URL resolution\<close>

text \<open>
  Claim C4, as amended. For a node of any class, the property \<open>_url\<close> yields the URL when
  the \<open>get_url\<close> of the node's class returns one, and \<open>None\<close> when it raises \<open>NoURL\<close> or
  its subclass \<open>NoURLType\<close>; every other exception is propagated, and the course is left
  as \<open>get_url\<close> left it. For a class that inherits \<open>Model.get_url\<close> the property is
  therefore \<open>None\<close> when the URL type \<open>web\<close> is not registered at all and when it is
  registered but not for the class. A license yields its stored URL whatever is
  registered; a material without a lesson yields its external URL, or \<open>None\<close> if it has
  none.
\<close>

theorem Model_url_swallows_every_NoURL:
  "(fst (self_get_url uf fs c n ''web'' True) = Inr u \<longrightarrow>
      fst (Model_url uf fs c n) = Inr (Some u))
   \<and> (fst (self_get_url uf fs c n ''web'' True) = Inl (NoURL a) \<longrightarrow>
      fst (Model_url uf fs c n) = Inr None)
   \<and> (fst (self_get_url uf fs c n ''web'' True) = Inl (NoURLType k) \<longrightarrow>
      fst (Model_url uf fs c n) = Inr None)
   \<and> (fst (self_get_url uf fs c n ''web'' True) = Inl e
        \<and> (\<forall>a. e \<noteq> NoURL a) \<and> (\<forall>k. e \<noteq> NoURLType k) \<longrightarrow>
      fst (Model_url uf fs c n) = Inl e)
   \<and> snd (Model_url uf fs c n) = snd (self_get_url uf fs c n ''web'' True)
   \<and> (node_type n \<noteq> License \<and> node_type n \<noteq> Material \<and> map_of uf ''web'' = None \<longrightarrow>
        self_get_url uf fs c n ''web'' True = (Inl (NoURLType ''web''), c)
        \<and> Model_url uf fs c n = (Inr None, c))
   \<and> (node_type n \<noteq> License \<and> node_type n \<noteq> Material
        \<and> map_of uf ''web'' = Some urls \<and> map_of urls (node_type n) = None \<longrightarrow>
        self_get_url uf fs c n ''web'' True = (Inl (NoURL (ArgType (node_type n))), c)
        \<and> Model_url uf fs c n = (Inr None, c))
   \<and> (node_type n = License \<longrightarrow>
        Model_url uf fs c n = (Inr (Some (URL (License_url (License_fields fs n)))), c))
   \<and> (node_type n = Material \<and> \<not> truthy (Material_lesson_slug (Material_fields fs n))
        \<and> truthy (Material_external_url (Material_fields fs n)) \<longrightarrow>
        Model_url uf fs c n
          = (Inr (Some (URL (str_value (Material_external_url (Material_fields fs n))))), c))
   \<and> (node_type n = Material \<and> \<not> truthy (Material_lesson_slug (Material_fields fs n))
        \<and> \<not> truthy (Material_external_url (Material_fields fs n)) \<longrightarrow>
        self_get_url uf fs c n ''web'' True
          = (Inl (NoURL (ArgMaterial (Material_fields fs n))), c)
        \<and> Model_url uf fs c n = (Inr None, c))"
proof -
  obtain r c' where g: "self_get_url uf fs c n ''web'' True = (r, c')"
    by (cases "self_get_url uf fs c n ''web'' True")
  have m: "Model_url uf fs c n = (except_NoURL r, c')" using g by (simp add: Model_url_def)
  have p1: "fst (self_get_url uf fs c n ''web'' True) = Inr u \<longrightarrow>
      fst (Model_url uf fs c n) = Inr (Some u)"
    using g m by (simp add: except_NoURL_def)
  have p2: "fst (self_get_url uf fs c n ''web'' True) = Inl (NoURL a) \<longrightarrow>
      fst (Model_url uf fs c n) = Inr None"
    using g m by (simp add: except_NoURL_def isinstance_NoURL_def)
  have p3: "fst (self_get_url uf fs c n ''web'' True) = Inl (NoURLType k) \<longrightarrow>
      fst (Model_url uf fs c n) = Inr None"
    using g m by (simp add: except_NoURL_def isinstance_NoURL_def)
  have p4: "fst (self_get_url uf fs c n ''web'' True) = Inl e
        \<and> (\<forall>a. e \<noteq> NoURL a) \<and> (\<forall>k. e \<noteq> NoURLType k) \<longrightarrow>
      fst (Model_url uf fs c n) = Inl e"
    using g m by (cases e) (simp_all add: except_NoURL_def isinstance_NoURL_def)
  have p5: "snd (Model_url uf fs c n) = snd (self_get_url uf fs c n ''web'' True)"
    using g m by simp
  have inh: "self_get_url uf fs c n ''web'' True
               = (as_URL (Model_get_url uf n ''web'' True), c)"
    if "node_type n \<noteq> License" "node_type n \<noteq> Material"
    using that by (cases "node_type n") (simp_all add: self_get_url_def)
  have p6: "node_type n \<noteq> License \<and> node_type n \<noteq> Material \<and> map_of uf ''web'' = None \<longrightarrow>
        self_get_url uf fs c n ''web'' True = (Inl (NoURLType ''web''), c)
        \<and> Model_url uf fs c n = (Inr None, c)"
    using inh
    by (simp add: Model_url_def Model_get_url_def Root_url_for_def as_URL_def except_NoURL_def
          isinstance_NoURL_def)
  have p7: "node_type n \<noteq> License \<and> node_type n \<noteq> Material
        \<and> map_of uf ''web'' = Some urls \<and> map_of urls (node_type n) = None \<longrightarrow>
        self_get_url uf fs c n ''web'' True = (Inl (NoURL (ArgType (node_type n))), c)
        \<and> Model_url uf fs c n = (Inr None, c)"
    using inh
    by (simp add: Model_url_def Model_get_url_def Root_url_for_def as_URL_def except_NoURL_def
          isinstance_NoURL_def)
  have p8: "node_type n = License \<longrightarrow>
        Model_url uf fs c n = (Inr (Some (URL (License_url (License_fields fs n)))), c)"
    by (simp add: Model_url_def self_get_url_def License_get_url_def as_URL_def except_NoURL_def)
  have p9: "node_type n = Material \<and> \<not> truthy (Material_lesson_slug (Material_fields fs n))
        \<and> truthy (Material_external_url (Material_fields fs n)) \<longrightarrow>
        Model_url uf fs c n
          = (Inr (Some (URL (str_value (Material_external_url (Material_fields fs n))))), c)"
    by (simp add: Model_url_def self_get_url_def Material_get_url_def except_NoURL_def)
  have p10: "node_type n = Material \<and> \<not> truthy (Material_lesson_slug (Material_fields fs n))
        \<and> \<not> truthy (Material_external_url (Material_fields fs n)) \<longrightarrow>
        self_get_url uf fs c n ''web'' True
          = (Inl (NoURL (ArgMaterial (Material_fields fs n))), c)
        \<and> Model_url uf fs c n = (Inr None, c)"
    by (simp add: Model_url_def self_get_url_def Material_get_url_def except_NoURL_def
          isinstance_NoURL_def)
  from p1 p2 p3 p4 p5 p6 p7 p8 p9 p10 show ?thesis by (intro conjI)
qed

theorem Model_url_swallows_every_NoURL_witness:
  "Model_url [(''web'', [(Course, \<lambda>pks external. Inr ''/c'')])] example_fields
      (Course_init ''c'' None) (Node Course (PStr ''c'') RootNode)
     = (Inr (Some (URL ''/c'')), Course_init ''c'' None)
   \<and> Model_url [] example_fields (Course_init ''c'' None) (Node Course (PStr ''c'') RootNode)
     = (Inr None, Course_init ''c'' None)
   \<and> Model_url [(''web'', [])] example_fields (Course_init ''c'' None)
        (Node Course (PStr ''c'') RootNode)
     = (Inr None, Course_init ''c'' None)
   \<and> fst (Model_url [(''web'', [(Course, \<lambda>pks external. Inl (OtherError ''build''))])]
        example_fields (Course_init ''c'' None) (Node Course (PStr ''c'') RootNode))
     = Inl (OtherError ''build'')
   \<and> Model_url [] example_fields (Course_init ''c'' None) (Node License (PStr ''cc0'') RootNode)
     = (Inr (Some (URL ''https://cc0'')), Course_init ''c'' None)
   \<and> Model_url [] example_fields (Course_init ''c'' None)
        (Node Material PNone (Node Session (PStr ''s'') (Node Course (PStr ''c'') RootNode)))
     = (Inr (Some (URL ''https://x'')), Course_init ''c'' None)
   \<and> Model_url [] (example_fields\<lparr>Material_fields := \<lambda>n.
          \<lparr>Material_slug = None, Material_title = None, Material_type = ''special'',
           Material_external_url = None, Material_lesson_slug = None\<rparr>\<rparr>)
        (Course_init ''c'' None)
        (Node Material PNone (Node Session (PStr ''s'') (Node Course (PStr ''c'') RootNode)))
     = (Inr None, Course_init ''c'' None)
   \<and> Model_url [] (example_fields\<lparr>Material_fields := \<lambda>n.
          \<lparr>Material_slug = None, Material_title = None, Material_type = ''lesson'',
           Material_external_url = None, Material_lesson_slug = Some ''intro''\<rparr>\<rparr>)
        (Course_init ''c'' None)
        (Node Material PNone (Node Session (PStr ''s'') (Node Course (PStr ''c'') RootNode)))
     = (Inr None, (Course_init ''c'' None)\<lparr>Course_requested_lessons := [''intro'']\<rparr>)"
proof -
  let ?n = "Node Course (PStr ''c'') RootNode"
  let ?ln = "Node License (PStr ''cc0'') RootNode"
  let ?mn = "Node Material PNone (Node Session (PStr ''s'') (Node Course (PStr ''c'') RootNode))"
  let ?c = "Course_init ''c'' None"
  let ?m0 = "\<lparr>Material_slug = None, Material_title = None, Material_type = ''special'',
           Material_external_url = None, Material_lesson_slug = None\<rparr>"
  let ?m1 = "\<lparr>Material_slug = None, Material_title = None, Material_type = ''lesson'',
           Material_external_url = None, Material_lesson_slug = Some ''intro''\<rparr>"
  let ?f0 = "example_fields\<lparr>Material_fields := \<lambda>n. ?m0\<rparr>"
  let ?f1 = "example_fields\<lparr>Material_fields := \<lambda>n. ?m1\<rparr>"
  let ?ok = "[(''web'', [(Course, \<lambda>pks external. Inr ''/c'')])] :: url_factories"
  let ?bad = "[(''web'', [(Course, \<lambda>pks external. Inl (OtherError ''build''))])] :: url_factories"
  have a: "Model_url ?ok example_fields ?c ?n = (Inr (Some (URL ''/c'')), ?c)"
    using Model_url_swallows_every_NoURL
      [of ?ok example_fields ?c ?n "URL ''/c''" "ArgType Course" "''web''" TypeError "[]"]
    by (simp add: self_get_url_def Model_get_url_def Root_url_for_def as_URL_def
          prod_eq_iff)
  have b: "Model_url [] example_fields ?c ?n = (Inr None, ?c)"
    using Model_url_swallows_every_NoURL
      [of "[]" example_fields ?c ?n "URL ''/c''" "ArgType Course" "''web''" TypeError "[]"]
    by simp
  have c: "Model_url [(''web'', [])] example_fields ?c ?n = (Inr None, ?c)"
    using Model_url_swallows_every_NoURL
      [of "[(''web'', [])]" example_fields ?c ?n "URL ''/c''" "ArgType Course" "''web''"
          TypeError "[]"]
    by simp
  have d: "fst (Model_url ?bad example_fields ?c ?n) = Inl (OtherError ''build'')"
    using Model_url_swallows_every_NoURL
      [of ?bad example_fields ?c ?n "URL ''/c''" "ArgType Course" "''web''"
          "OtherError ''build''" "[]"]
    by (simp add: self_get_url_def Model_get_url_def Root_url_for_def as_URL_def)
  have e: "Model_url [] example_fields ?c ?ln = (Inr (Some (URL ''https://cc0'')), ?c)"
    using Model_url_swallows_every_NoURL
      [of "[]" example_fields ?c ?ln "URL ''/c''" "ArgType Course" "''web''" TypeError "[]"]
    by (simp add: example_fields_def)
  have f: "Model_url [] example_fields ?c ?mn = (Inr (Some (URL ''https://x'')), ?c)"
    using Model_url_swallows_every_NoURL
      [of "[]" example_fields ?c ?mn "URL ''/c''" "ArgType Course" "''web''" TypeError "[]"]
    by (simp add: example_fields_def truthy_def str_value_def)
  have g: "Model_url [] ?f0 ?c ?mn = (Inr None, ?c)"
    using Model_url_swallows_every_NoURL
      [of "[]" ?f0 ?c ?mn "URL ''/c''" "ArgType Course" "''web''" TypeError "[]"]
    by (simp add: truthy_def str_value_def)
  have h: "Model_url [] ?f1 ?c ?mn
             = (Inr None, ?c\<lparr>Course_requested_lessons := [''intro'']\<rparr>)"
    using Model_url_swallows_every_NoURL
      [of "[]" ?f1 ?c ?mn "URL ''/c''" "ArgType Course" "''web''" TypeError "[]"]
    by (simp add: self_get_url_def Material_get_url_def get_lesson_url_def Root_url_for_def
          as_URL_def truthy_def str_value_def Course_init_def keys_def set_add_def prod_eq_iff)
  from a b c d e f g h show ?thesis by (intro conjI)
qed

text \<open>
  The claim as stated fails where no URL type is registered: \<open>get_url\<close> of a course
  raises \<open>NoURLType\<close>, and \<open>_url\<close> swallows it.
\<close>

theorem Model_url_NoURLType_counterexample:
  "self_get_url [] example_fields (Course_init ''c'' None) (Node Course (PStr ''c'') RootNode)
      ''web'' True
     = (Inl (NoURLType ''web''), Course_init ''c'' None)
   \<and> Model_url [] example_fields (Course_init ''c'' None) (Node Course (PStr ''c'') RootNode)
     = (Inr None, Course_init ''c'' None)"
  by (simp add: Model_url_def self_get_url_def except_NoURL_def isinstance_NoURL_def
        Model_get_url_def Root_url_for_def as_URL_def)

text \<open>
  Claim C7. A license resolves to its stored URL for every URL type. A material whose
  \<open>lesson_slug\<close> is set (a non-empty string, as the source tests it) forwards every request
  to \<open>get_lesson_url\<close> of its course, which for a loaded lesson is the URL of that lesson;
  otherwise a request for \<open>web\<close> yields the \<open>external_url\<close> if that is set, and raises
  \<open>NoURL\<close> if the material has neither.
\<close>

theorem url_special_cases:
  "License_get_url l url_type external = Inr (License_url l)
   \<and> (truthy (Material_lesson_slug m) \<longrightarrow>
        Material_get_url uf c m url_type
          = get_lesson_url uf c (str_value (Material_lesson_slug m)) ''index'' (''web'', False))
   \<and> (truthy (Material_lesson_slug m)
        \<and> str_value (Material_lesson_slug m) \<in> set (keys (Course_lessons c)) \<longrightarrow>
        Material_get_url uf c m url_type
          = (as_URL (Model_get_url uf
                (Node Lesson (PStr (str_value (Material_lesson_slug m))) (Course_node c))
                ''web'' False), c))
   \<and> (\<not> truthy (Material_lesson_slug m) \<and> truthy (Material_external_url m) \<longrightarrow>
        Material_get_url uf c m ''web''
          = (Inr (URL (str_value (Material_external_url m))), c))
   \<and> (\<not> truthy (Material_lesson_slug m) \<and> \<not> truthy (Material_external_url m) \<longrightarrow>
        Material_get_url uf c m ''web'' = (Inl (NoURL (ArgMaterial m)), c))"
  by (simp add: License_get_url_def Material_get_url_def get_lesson_url_def)

theorem url_special_cases_witness:
  "License_get_url \<lparr>License_slug = ''cc0'', License_url = ''https://cc0'', License_title = ''CC0''\<rparr>
      ''api'' False = Inr ''https://cc0''
   \<and> Material_get_url [(''web'', [(Lesson, \<lambda>pks external. Inr ''/intro'')])]
        ((Course_init ''c'' None)\<lparr>Course_lessons :=
            [(''intro'', \<lparr>Lesson_title = ''Intro'', Lesson_content_links = []\<rparr>)]\<rparr>)
        \<lparr>Material_slug = None, Material_title = None, Material_type = ''lesson'',
         Material_external_url = None, Material_lesson_slug = Some ''intro''\<rparr> ''api''
      = (Inr (URL ''/intro''), (Course_init ''c'' None)\<lparr>Course_lessons :=
            [(''intro'', \<lparr>Lesson_title = ''Intro'', Lesson_content_links = []\<rparr>)]\<rparr>)
   \<and> Material_get_url [] (Course_init ''c'' None)
        \<lparr>Material_slug = None, Material_title = None, Material_type = ''link'',
         Material_external_url = Some ''https://x'', Material_lesson_slug = None\<rparr> ''web''
      = (Inr (URL ''https://x''), Course_init ''c'' None)
   \<and> Material_get_url [] (Course_init ''c'' None)
        \<lparr>Material_slug = None, Material_title = None, Material_type = ''special'',
         Material_external_url = None, Material_lesson_slug = None\<rparr> ''web''
      = (Inl (NoURL (ArgMaterial
           \<lparr>Material_slug = None, Material_title = None, Material_type = ''special'',
            Material_external_url = None, Material_lesson_slug = None\<rparr>)), Course_init ''c'' None)"
proof -
  let ?l = "\<lparr>License_slug = ''cc0'', License_url = ''https://cc0'', License_title = ''CC0''\<rparr>"
  let ?uf = "[(''web'', [(Lesson, \<lambda>pks external. Inr ''/intro'')])] :: url_factories"
  let ?c0 = "Course_init ''c'' None"
  let ?c1 = "(Course_init ''c'' None)\<lparr>Course_lessons :=
            [(''intro'', \<lparr>Lesson_title = ''Intro'', Lesson_content_links = []\<rparr>)]\<rparr>"
  let ?m1 = "\<lparr>Material_slug = None, Material_title = None, Material_type = ''lesson'',
         Material_external_url = None, Material_lesson_slug = Some ''intro''\<rparr>"
  let ?m2 = "\<lparr>Material_slug = None, Material_title = None, Material_type = ''link'',
         Material_external_url = Some ''https://x'', Material_lesson_slug = None\<rparr>"
  let ?m3 = "\<lparr>Material_slug = None, Material_title = None, Material_type = ''special'',
         Material_external_url = None, Material_lesson_slug = None\<rparr>"
  have a: "License_get_url ?l ''api'' False = Inr ''https://cc0''"
    using url_special_cases [of ?l "''api''" False ?m1 ?uf ?c1] by simp
  have b: "Material_get_url ?uf ?c1 ?m1 ''api'' = (Inr (URL ''/intro''), ?c1)"
    using url_special_cases [of ?l "''api''" False ?m1 ?uf ?c1]
    by (simp add: truthy_def str_value_def Course_init_def keys_def as_URL_def
          Model_get_url_def Root_url_for_def get_lesson_url_def)
  have c: "Material_get_url [] ?c0 ?m2 ''web'' = (Inr (URL ''https://x''), ?c0)"
    using url_special_cases [of ?l "''web''" False ?m2 "[]" ?c0]
    by (simp add: truthy_def str_value_def)
  have d: "Material_get_url [] ?c0 ?m3 ''web'' = (Inl (NoURL (ArgMaterial ?m3)), ?c0)"
    using url_special_cases [of ?l "''web''" False ?m3 "[]" ?c0]
    by (simp add: truthy_def str_value_def)
  from a b c d show ?thesis by blast
qed

text \<open>
  Claim C8. The after-load hook of \<open>lesson_slug\<close> raises the \<open>ValueError\<close> exactly when
  \<open>lesson_slug\<close> and \<open>external_url\<close> are both set (non-empty, as the source tests them);
  with at most one of them set it returns without an error.
\<close>

theorem validate_lesson_slug_exclusive:
  "(truthy (Material_lesson_slug m) \<and> truthy (Material_external_url m) \<longrightarrow>
      validate_lesson_slug m = Inl (ValueError ''external_url and lesson_slug are incompatible''))
   \<and> (\<not> truthy (Material_lesson_slug m) \<or> \<not> truthy (Material_external_url m) \<longrightarrow>
      validate_lesson_slug m = Inr ())"
  by (simp add: validate_lesson_slug_def)

theorem validate_lesson_slug_exclusive_witness:
  "validate_lesson_slug
      \<lparr>Material_slug = None, Material_title = None, Material_type = ''lesson'',
       Material_external_url = Some ''https://x'', Material_lesson_slug = Some ''intro''\<rparr>
     = Inl (ValueError ''external_url and lesson_slug are incompatible'')
   \<and> validate_lesson_slug
      \<lparr>Material_slug = None, Material_title = None, Material_type = ''lesson'',
       Material_external_url = None, Material_lesson_slug = Some ''intro''\<rparr> = Inr ()
   \<and> validate_lesson_slug
      \<lparr>Material_slug = None, Material_title = None, Material_type = ''link'',
       Material_external_url = Some ''https://x'', Material_lesson_slug = None\<rparr> = Inr ()"
  using
    validate_lesson_slug_exclusive [of
      "\<lparr>Material_slug = None, Material_title = None, Material_type = ''lesson'',
        Material_external_url = Some ''https://x'', Material_lesson_slug = Some ''intro''\<rparr>"]
    validate_lesson_slug_exclusive [of
      "\<lparr>Material_slug = None, Material_title = None, Material_type = ''lesson'',
        Material_external_url = None, Material_lesson_slug = Some ''intro''\<rparr>"]
    validate_lesson_slug_exclusive [of
      "\<lparr>Material_slug = None, Material_title = None, Material_type = ''link'',
        Material_external_url = Some ''https://x'', Material_lesson_slug = None\<rparr>"]
  by (simp add: truthy_def str_value_def)


section \<open>The lazy lesson loader\<close>

text \<open>
  Claim C10. On a frozen course, \<open>get_lesson_url\<close> for a slug that is not among the
  loaded lessons raises nothing: it returns a \<open>KeyError\<close> object as its value, and leaves
  the course, the requested lessons included, as it was.
\<close>

theorem get_lesson_url_frozen_returns_KeyError:
  assumes "Course_frozen c" and "slug \<notin> set (keys (Course_lessons c))"
  shows "get_lesson_url uf c slug page kw = (Inr (ExceptionObject (KeyError (PStr slug))), c)"
  using assms by (simp add: get_lesson_url_def)

theorem get_lesson_url_frozen_returns_KeyError_witness:
  "Course_frozen ((Course_init ''c'' None)\<lparr>Course_frozen := True\<rparr>)
   \<and> ''x'' \<notin> set (keys (Course_lessons ((Course_init ''c'' None)\<lparr>Course_frozen := True\<rparr>)))
   \<and> get_lesson_url [] ((Course_init ''c'' None)\<lparr>Course_frozen := True\<rparr>) ''x'' ''index''
        (''web'', False)
      = (Inr (ExceptionObject (KeyError (PStr ''x''))),
         (Course_init ''c'' None)\<lparr>Course_frozen := True\<rparr>)"
proof -
  have h1: "Course_frozen ((Course_init ''c'' None)\<lparr>Course_frozen := True\<rparr>)" by simp
  have h2: "''x'' \<notin> set (keys (Course_lessons ((Course_init ''c'' None)\<lparr>Course_frozen := True\<rparr>)))"
    by (simp add: Course_init_def keys_def)
  show ?thesis using h1 h2 get_lesson_url_frozen_returns_KeyError [OF h1 h2] by simp
qed


subsection \<open>What the operations change\<close>

lemma set_set_add [simp]: "set (set_add x s) = insert x (set s)"
  by (auto simp: set_add_def)

lemma get_lesson_url_state:
  assumes "get_lesson_url uf c slug page kw = (r, c')"
  shows "\<exists>R. c' = c\<lparr>Course_requested_lessons := R\<rparr>
            \<and> set (Course_requested_lessons c) \<subseteq> set R
            \<and> (\<not> Course_frozen c \<longrightarrow> slug \<in> set (keys (Course_lessons c)) \<union> set R)"
  using assms
  by (auto simp: get_lesson_url_def split: if_splits intro: exI[of _ "Course_requested_lessons c"])

lemma request_links_state:
  assumes "request_links uf c ls = (r, c')"
  shows "\<exists>R. c' = c\<lparr>Course_requested_lessons := R\<rparr>
            \<and> set (Course_requested_lessons c) \<subseteq> set R
            \<and> (\<not> Course_frozen c \<longrightarrow> r = Inr () \<longrightarrow>
                 fst ` set ls \<subseteq> set (keys (Course_lessons c)) \<union> set R)"
  using assms
proof (induction ls arbitrary: c)
  case Nil
  then show ?case by (auto intro: exI[of _ "Course_requested_lessons c"])
next
  case (Cons l ls)
  obtain r1 c1 where g: "get_lesson_url uf c (fst l) (snd l) (''web'', False) = (r1, c1)"
    by (cases "get_lesson_url uf c (fst l) (snd l) (''web'', False)")
  from get_lesson_url_state[OF g] obtain R1 where
    c1: "c1 = c\<lparr>Course_requested_lessons := R1\<rparr>"
    and sub1: "set (Course_requested_lessons c) \<subseteq> set R1"
    and in1: "\<not> Course_frozen c \<longrightarrow> fst l \<in> set (keys (Course_lessons c)) \<union> set R1"
    by blast
  show ?case
  proof (cases r1)
    case (Inl e)
    with Cons.prems g have "c' = c1" "r = Inl e" by simp_all
    with c1 sub1 show ?thesis by auto
  next
    case (Inr u)
    with Cons.prems g have rl: "request_links uf c1 ls = (r, c')" by simp
    from Cons.IH[OF rl] obtain R where
      c': "c' = c1\<lparr>Course_requested_lessons := R\<rparr>"
      and sub: "set (Course_requested_lessons c1) \<subseteq> set R"
      and inl: "\<not> Course_frozen c1 \<longrightarrow> r = Inr () \<longrightarrow>
                 fst ` set ls \<subseteq> set (keys (Course_lessons c1)) \<union> set R"
      by blast
    have "c' = c\<lparr>Course_requested_lessons := R\<rparr>" using c' c1 by simp
    moreover have "set (Course_requested_lessons c) \<subseteq> set R" using sub sub1 c1 by auto
    moreover have "\<not> Course_frozen c \<longrightarrow> r = Inr () \<longrightarrow>
                 fst ` set (l # ls) \<subseteq> set (keys (Course_lessons c)) \<union> set R"
      using inl in1 sub c1 by auto
    ultimately show ?thesis by blast
  qed
qed



lemma merge_lessons_state:
  assumes "merge_lessons new c slugs = (r, c')"
  shows "\<exists>L R. c' = c\<lparr>Course_lessons := L, Course_requested_lessons := R\<rparr>
            \<and> set (keys (Course_lessons c)) \<subseteq> set (keys L)
            \<and> set R \<subseteq> set (Course_requested_lessons c)
            \<and> (r = Inr () \<longrightarrow>
                 set (keys L) = set (keys (Course_lessons c)) \<union> set slugs
                 \<and> set R = set (Course_requested_lessons c) - set slugs
                 \<and> (\<forall>s. map_of L s = (if s \<in> set slugs then map_of new s
                                        else map_of (Course_lessons c) s))
                 \<and> (\<forall>s \<in> set slugs. map_of new s \<noteq> None))"
  using assms
proof (induction slugs arbitrary: c)
  case Nil
  then show ?case
    by (auto intro!: exI[of _ "Course_lessons c"] exI[of _ "Course_requested_lessons c"])
next
  case (Cons slug slugs)
  show ?case
  proof (cases "map_of new slug")
    case None
    with Cons.prems have "c' = c" "r \<noteq> Inr ()" by auto
    then show ?thesis
      by (auto intro!: exI[of _ "Course_lessons c"] exI[of _ "Course_requested_lessons c"])
  next
    case (Some lesson)
    define c1 where "c1 = c\<lparr>Course_lessons := AList.update slug lesson (Course_lessons c),
               Course_requested_lessons := set_discard slug (Course_requested_lessons c)\<rparr>"
    from Cons.prems Some have m: "merge_lessons new c1 slugs = (r, c')"
      by (simp add: c1_def)
    from Cons.IH[OF m] obtain L R where
      c': "c' = c1\<lparr>Course_lessons := L, Course_requested_lessons := R\<rparr>"
      and k: "set (keys (Course_lessons c1)) \<subseteq> set (keys L)"
      and rq: "set R \<subseteq> set (Course_requested_lessons c1)"
      and ok: "r = Inr () \<longrightarrow>
                 set (keys L) = set (keys (Course_lessons c1)) \<union> set slugs
                 \<and> set R = set (Course_requested_lessons c1) - set slugs
                 \<and> (\<forall>s. map_of L s = (if s \<in> set slugs then map_of new s
                                        else map_of (Course_lessons c1) s))
                 \<and> (\<forall>s \<in> set slugs. map_of new s \<noteq> None)"
      by blast
    have k1: "set (keys (Course_lessons c1)) = insert slug (set (keys (Course_lessons c)))"
      by (auto simp: c1_def keys_update)
    have r1: "set (Course_requested_lessons c1) = set (Course_requested_lessons c) - {slug}"
      by (auto simp: c1_def set_discard_def)
    have m1: "\<And>s. map_of (Course_lessons c1) s
                 = (if s = slug then Some lesson else map_of (Course_lessons c) s)"
      by (simp add: c1_def update_conv')
    have "c' = c\<lparr>Course_lessons := L, Course_requested_lessons := R\<rparr>"
      using c' by (simp add: c1_def)
    moreover have "set (keys (Course_lessons c)) \<subseteq> set (keys L)" using k k1 by auto
    moreover have "set R \<subseteq> set (Course_requested_lessons c)" using rq r1 by auto
    moreover have "r = Inr () \<longrightarrow>
                 set (keys L) = set (keys (Course_lessons c)) \<union> set (slug # slugs)
                 \<and> set R = set (Course_requested_lessons c) - set (slug # slugs)
                 \<and> (\<forall>s. map_of L s = (if s \<in> set (slug # slugs) then map_of new s
                                        else map_of (Course_lessons c) s))
                 \<and> (\<forall>s \<in> set (slug # slugs). map_of new s \<noteq> None)"
      using ok k1 r1 m1 Some by auto
    ultimately show ?thesis by blast
  qed
qed

lemma set_slugs_to_load:
  "set (slugs_to_load c slugs) = set slugs - set (keys (Course_lessons c))"
  "distinct (slugs_to_load c slugs)"
  by (auto simp: slugs_to_load_def difference_update_def)


lemma load_lessons_state:
  assumes "load_lessons uf rend c slugs = (r, c')" and "\<not> Course_frozen c"
  shows "\<exists>L R. c' = c\<lparr>Course_lessons := L, Course_requested_lessons := R,
                       Course_renderer_calls := Course_renderer_calls c @ [slugs_to_load c slugs]\<rparr>
            \<and> set (keys (Course_lessons c)) \<subseteq> set (keys L)
            \<and> (r = Inr () \<longrightarrow>
                 (\<exists>new. rend (slugs_to_load c slugs) (Course_vars c) (Course_base_path c) = Inr new
                   \<and> (\<forall>s. map_of L s = (if s \<in> set (slugs_to_load c slugs) then map_of new s
                                          else map_of (Course_lessons c) s))
                   \<and> (\<forall>s \<in> set (slugs_to_load c slugs). map_of new s \<noteq> None)
                   \<and> (\<forall>sl \<in> set new. \<forall>lk \<in> set (Lesson_content_links (snd sl)).
                         fst lk \<in> set (keys L) \<union> set R))
                 \<and> set (keys L) = set (keys (Course_lessons c)) \<union> set slugs
                 \<and> set R \<inter> set (slugs_to_load c slugs) = {}
                 \<and> set (Course_requested_lessons c) - set (slugs_to_load c slugs) \<subseteq> set R)"
proof -
  define slugs' where "slugs' = slugs_to_load c slugs"
  define c1 where "c1 = c\<lparr>Course_renderer_calls := Course_renderer_calls c @ [slugs']\<rparr>"
  show ?thesis
  proof (cases "rend slugs' (Course_vars c) (Course_base_path c)")
    case (Inl e)
    with assms have "c' = c1" "r = Inl e"
      by (simp_all add: load_lessons_def Let_def slugs'_def c1_def)
    then show ?thesis
      by (auto simp: c1_def slugs'_def
            intro!: exI[of _ "Course_lessons c"] exI[of _ "Course_requested_lessons c"])
  next
    case (Inr new)
    define ls where "ls = concat (map (\<lambda>kv. Lesson_content_links (snd kv)) new)"
    obtain r2 c2 where rl: "request_links uf c1 ls = (r2, c2)"
      by (cases "request_links uf c1 ls")
    from request_links_state[OF rl] obtain R2 where
      c2: "c2 = c1\<lparr>Course_requested_lessons := R2\<rparr>"
      and sub2: "set (Course_requested_lessons c1) \<subseteq> set R2"
      and in2: "\<not> Course_frozen c1 \<longrightarrow> r2 = Inr () \<longrightarrow>
                 fst ` set ls \<subseteq> set (keys (Course_lessons c1)) \<union> set R2"
      by blast
    show ?thesis
    proof (cases r2)
      case (Inl e)
      with assms Inr rl have "c' = c2" "r = Inl e"
        by (simp_all add: load_lessons_def Let_def slugs'_def[symmetric] c1_def[symmetric]
              ls_def[symmetric])
      then show ?thesis using c2
        by (auto simp: c1_def slugs'_def
              intro!: exI[of _ "Course_lessons c"] exI[of _ R2])
    next
      case Inr2: (Inr u)
      with assms Inr rl have m: "merge_lessons new c2 slugs' = (r, c')"
        by (simp add: load_lessons_def Let_def slugs'_def[symmetric] c1_def[symmetric]
              ls_def[symmetric])
      from merge_lessons_state[OF m] obtain L R where
        c': "c' = c2\<lparr>Course_lessons := L, Course_requested_lessons := R\<rparr>"
        and k: "set (keys (Course_lessons c2)) \<subseteq> set (keys L)"
        and rq: "set R \<subseteq> set (Course_requested_lessons c2)"
        and ok: "r = Inr () \<longrightarrow>
                 set (keys L) = set (keys (Course_lessons c2)) \<union> set slugs'
                 \<and> set R = set (Course_requested_lessons c2) - set slugs'
                 \<and> (\<forall>s. map_of L s = (if s \<in> set slugs' then map_of new s
                                        else map_of (Course_lessons c2) s))
                 \<and> (\<forall>s \<in> set slugs'. map_of new s \<noteq> None)"
        by blast
      have l2: "Course_lessons c2 = Course_lessons c" by (simp add: c2 c1_def)
      have q2: "Course_requested_lessons c2 = R2" by (simp add: c2)
      have q1: "Course_requested_lessons c1 = Course_requested_lessons c" by (simp add: c1_def)
      have f1: "\<not> Course_frozen c1" using assms(2) by (simp add: c1_def)
      have s': "set slugs' = set slugs - set (keys (Course_lessons c))"
        by (simp add: slugs'_def set_slugs_to_load)
      have eq: "c' = c\<lparr>Course_lessons := L, Course_requested_lessons := R,
                       Course_renderer_calls := Course_renderer_calls c @ [slugs']\<rparr>"
        using c' c2 by (simp add: c1_def)
      have sub: "set (keys (Course_lessons c)) \<subseteq> set (keys L)" using k l2 by simp
      have links: "r = Inr () \<Longrightarrow> sl \<in> set new \<Longrightarrow> lk \<in> set (Lesson_content_links (snd sl))
                    \<Longrightarrow> fst lk \<in> set (keys L) \<union> set R" for sl lk
      proof -
        assume a: "r = Inr ()" "sl \<in> set new" "lk \<in> set (Lesson_content_links (snd sl))"
        then have "lk \<in> set ls" by (auto simp: ls_def)
        then have "fst lk \<in> set (keys (Course_lessons c)) \<union> set R2"
          using in2 f1 Inr2 by (auto simp: c1_def)
        then show ?thesis using ok a(1) l2 q2 by auto
      qed
      have "r = Inr () \<longrightarrow>
                 (\<exists>new. rend slugs' (Course_vars c) (Course_base_path c) = Inr new
                   \<and> (\<forall>s. map_of L s = (if s \<in> set slugs' then map_of new s
                                          else map_of (Course_lessons c) s))
                   \<and> (\<forall>s \<in> set slugs'. map_of new s \<noteq> None)
                   \<and> (\<forall>sl \<in> set new. \<forall>lk \<in> set (Lesson_content_links (snd sl)).
                         fst lk \<in> set (keys L) \<union> set R))
                 \<and> set (keys L) = set (keys (Course_lessons c)) \<union> set slugs
                 \<and> set R \<inter> set slugs' = {}
                 \<and> set (Course_requested_lessons c) - set slugs' \<subseteq> set R"
      proof
        assume a: "r = Inr ()"
        have "rend slugs' (Course_vars c) (Course_base_path c) = Inr new
                   \<and> (\<forall>s. map_of L s = (if s \<in> set slugs' then map_of new s
                                          else map_of (Course_lessons c) s))
                   \<and> (\<forall>s \<in> set slugs'. map_of new s \<noteq> None)
                   \<and> (\<forall>sl \<in> set new. \<forall>lk \<in> set (Lesson_content_links (snd sl)).
                         fst lk \<in> set (keys L) \<union> set R)"
          using Inr ok a l2 links by auto
        moreover have "set (keys L) = set (keys (Course_lessons c)) \<union> set slugs"
          using ok a l2 s' by auto
        moreover have "set R \<inter> set slugs' = {}" using ok a by auto
        moreover have "set (Course_requested_lessons c) - set slugs' \<subseteq> set R"
          using ok a q2 sub2 q1 by auto
        ultimately show "(\<exists>new. rend slugs' (Course_vars c) (Course_base_path c) = Inr new
                   \<and> (\<forall>s. map_of L s = (if s \<in> set slugs' then map_of new s
                                          else map_of (Course_lessons c) s))
                   \<and> (\<forall>s \<in> set slugs'. map_of new s \<noteq> None)
                   \<and> (\<forall>sl \<in> set new. \<forall>lk \<in> set (Lesson_content_links (snd sl)).
                         fst lk \<in> set (keys L) \<union> set R))
                 \<and> set (keys L) = set (keys (Course_lessons c)) \<union> set slugs
                 \<and> set R \<inter> set slugs' = {}
                 \<and> set (Course_requested_lessons c) - set slugs' \<subseteq> set R"
          by blast
      qed
      with eq sub show ?thesis unfolding slugs'_def by blast
    qed
  qed
qed

lemma load_lessons_not_frozen:
  "load_lessons uf rend c slugs = (Inr u, c') \<Longrightarrow> \<not> Course_frozen c"
  by (auto simp: load_lessons_def)

lemma links_closedD:
  assumes "links_closed c" and "map_of (Course_lessons c) s = Some l"
    and "lk \<in> set (Lesson_content_links l)"
  shows "fst lk \<in> set (keys (Course_lessons c)) \<union> set (Course_requested_lessons c)"
proof -
  from assms(2) have "(s, l) \<in> set (Course_lessons c)" by (rule map_of_SomeD)
  then have "s \<in> set (keys (Course_lessons c))" by (force simp: keys_def)
  with assms(1) have "case map_of (Course_lessons c) s of
          None \<Rightarrow> True
        | Some l \<Rightarrow>
            \<forall>lk \<in> set (Lesson_content_links l).
              fst lk \<in> set (keys (Course_lessons c)) \<union> set (Course_requested_lessons c)"
    unfolding links_closed_def by blast
  with assms(2,3) show ?thesis by simp
qed

lemma links_closedI:
  assumes "\<And>s l lk. map_of (Course_lessons c) s = Some l \<Longrightarrow> lk \<in> set (Lesson_content_links l)
     \<Longrightarrow> fst lk \<in> set (keys (Course_lessons c)) \<union> set (Course_requested_lessons c)"
  shows "links_closed c"
  unfolding links_closed_def
proof
  fix s assume "s \<in> set (keys (Course_lessons c))"
  show "case map_of (Course_lessons c) s of
          None \<Rightarrow> True
        | Some l \<Rightarrow>
            \<forall>lk \<in> set (Lesson_content_links l).
              fst lk \<in> set (keys (Course_lessons c)) \<union> set (Course_requested_lessons c)"
  proof (cases "map_of (Course_lessons c) s")
    case None
    then show ?thesis by simp
  next
    case (Some l)
    then show ?thesis using assms[OF Some] by simp
  qed
qed

lemma links_closed_difference_update:
  assumes "links_closed c"
  shows "links_closed (c\<lparr>Course_requested_lessons :=
       difference_update (Course_requested_lessons c) (Course_lessons c)\<rparr>)"
proof (rule links_closedI)
  fix s l lk
  assume "map_of (Course_lessons (c\<lparr>Course_requested_lessons :=
       difference_update (Course_requested_lessons c) (Course_lessons c)\<rparr>)) s = Some l"
    and k: "lk \<in> set (Lesson_content_links l)"
  then have "map_of (Course_lessons c) s = Some l" by simp
  from links_closedD[OF assms this k]
  show "fst lk \<in> set (keys (Course_lessons (c\<lparr>Course_requested_lessons :=
       difference_update (Course_requested_lessons c) (Course_lessons c)\<rparr>)))
     \<union> set (Course_requested_lessons (c\<lparr>Course_requested_lessons :=
       difference_update (Course_requested_lessons c) (Course_lessons c)\<rparr>))"
    by (auto simp: difference_update_def)
qed

lemma load_lessons_links_closed:
  assumes ll: "load_lessons uf rend c slugs = (Inr (), c')" and nf: "\<not> Course_frozen c"
    and lc: "links_closed c"
  shows "links_closed c'"
proof -
  from load_lessons_state[OF ll nf] obtain L R where
    c': "c' = c\<lparr>Course_lessons := L, Course_requested_lessons := R,
                       Course_renderer_calls := Course_renderer_calls c @ [slugs_to_load c slugs]\<rparr>"
    and sub: "set (keys (Course_lessons c)) \<subseteq> set (keys L)"
    and ex: "\<exists>new. rend (slugs_to_load c slugs) (Course_vars c) (Course_base_path c) = Inr new
                   \<and> (\<forall>s. map_of L s = (if s \<in> set (slugs_to_load c slugs) then map_of new s
                                          else map_of (Course_lessons c) s))
                   \<and> (\<forall>s \<in> set (slugs_to_load c slugs). map_of new s \<noteq> None)
                   \<and> (\<forall>sl \<in> set new. \<forall>lk \<in> set (Lesson_content_links (snd sl)).
                         fst lk \<in> set (keys L) \<union> set R)"
    and ks: "set (keys L) = set (keys (Course_lessons c)) \<union> set slugs"
    and rq: "set (Course_requested_lessons c) - set (slugs_to_load c slugs) \<subseteq> set R"
    by blast
  from ex obtain new where
    mo: "\<forall>s. map_of L s = (if s \<in> set (slugs_to_load c slugs) then map_of new s
                                          else map_of (Course_lessons c) s)"
    and lk: "\<forall>sl \<in> set new. \<forall>lk \<in> set (Lesson_content_links (snd sl)).
                         fst lk \<in> set (keys L) \<union> set R"
    by blast
  have "fst k \<in> set (keys L) \<union> set R"
    if "map_of L s = Some l" "k \<in> set (Lesson_content_links l)" for s l k
  proof (cases "s \<in> set (slugs_to_load c slugs)")
    case True
    with mo that(1) have "map_of new s = Some l" by simp
    then have "(s, l) \<in> set new" by (rule map_of_SomeD)
    with lk that(2) show ?thesis by force
  next
    case False
    with mo that(1) have "map_of (Course_lessons c) s = Some l" by simp
    from links_closedD[OF lc this that(2)]
    have "fst k \<in> set (keys (Course_lessons c)) \<union> set (Course_requested_lessons c)" .
    then show ?thesis using sub rq ks by (auto simp: set_slugs_to_load)
  qed
  then show ?thesis by (intro links_closedI) (simp add: c')
qed

lemma load_all_loop_state:
  assumes "load_all_loop uf rend c d = (r, c')" and "\<not> Course_frozen c" and "0 \<le> d"
  shows "\<exists>L R calls. c' = c\<lparr>Course_lessons := L, Course_requested_lessons := R,
                          Course_renderer_calls := Course_renderer_calls c @ calls\<rparr>
           \<and> length calls \<le> nat d + 1
           \<and> set (keys (Course_lessons c)) \<subseteq> set (keys L)
           \<and> (r = Inr () \<longrightarrow> length calls \<le> nat d \<and> R = []
                 \<and> set (Course_requested_lessons c) \<subseteq> set (keys L)
                 \<and> (links_closed c \<longrightarrow> links_closed c'))
           \<and> (length calls = nat d + 1 \<longrightarrow> r \<noteq> Inr ())
           \<and> (\<forall>e. r = Inl e \<longrightarrow> e = too_deep c
                 \<or> (\<exists>c1 slugs c2. load_lessons uf rend c1 slugs = (Inl e, c2)))"
  using assms
proof (induction uf rend c d arbitrary: r c' rule: load_all_loop.induct)
  case (1 uf rend c d)
  define c1 where "c1 = c\<lparr>Course_requested_lessons :=
                     difference_update (Course_requested_lessons c) (Course_lessons c)\<rparr>"
  show ?case
  proof (cases "Course_requested_lessons c = []")
    case True
    with "1.prems" have rc: "r = Inr ()" "c' = c" by simp_all
    have "c' = c\<lparr>Course_lessons := Course_lessons c, Course_requested_lessons := [],
                          Course_renderer_calls := Course_renderer_calls c @ []\<rparr>"
      using rc True by simp
    moreover have "length ([]::string list list) \<le> nat d + 1" by simp
    moreover have "set (keys (Course_lessons c)) \<subseteq> set (keys (Course_lessons c))" by simp
    moreover have "r = Inr () \<longrightarrow> length ([]::string list list) \<le> nat d \<and> ([]::string list) = []
                 \<and> set (Course_requested_lessons c) \<subseteq> set (keys (Course_lessons c))
                 \<and> (links_closed c \<longrightarrow> links_closed c')"
      using rc True by simp
    moreover have "length ([]::string list list) = nat d + 1 \<longrightarrow> r \<noteq> Inr ()" by simp
    moreover have "\<forall>e. r = Inl e \<longrightarrow> e = too_deep c
                 \<or> (\<exists>c1 slugs c2. load_lessons uf rend c1 slugs = (Inl e, c2))"
      using rc by simp
    ultimately show ?thesis by blast
  next
    case ne: False
    show ?thesis
    proof (cases "Course_requested_lessons c1 = []")
      case True
      with "1.prems" ne have rc: "r = Inr ()" "c' = c1"
        by (simp_all add: c1_def Let_def)
      have sub: "set (Course_requested_lessons c) \<subseteq> set (keys (Course_lessons c))"
        using True by (auto simp: c1_def difference_update_def filter_empty_conv)
      have "c' = c\<lparr>Course_lessons := Course_lessons c, Course_requested_lessons := [],
                          Course_renderer_calls := Course_renderer_calls c @ []\<rparr>"
        using rc True by (simp add: c1_def)
      moreover have "length ([]::string list list) \<le> nat d + 1" by simp
      moreover have "set (keys (Course_lessons c)) \<subseteq> set (keys (Course_lessons c))" by simp
      moreover have "r = Inr () \<longrightarrow> length ([]::string list list) \<le> nat d \<and> ([]::string list) = []
                 \<and> set (Course_requested_lessons c) \<subseteq> set (keys (Course_lessons c))
                 \<and> (links_closed c \<longrightarrow> links_closed c')"
        using rc sub links_closed_difference_update[of c] by (simp add: c1_def)
      moreover have "length ([]::string list list) = nat d + 1 \<longrightarrow> r \<noteq> Inr ()" by simp
      moreover have "\<forall>e. r = Inl e \<longrightarrow> e = too_deep c
                 \<or> (\<exists>c1 slugs c2. load_lessons uf rend c1 slugs = (Inl e, c2))"
        using rc by simp
      ultimately show ?thesis by blast
    next
      case ne1: False
      define call where "call = slugs_to_load c1 (Course_requested_lessons c1)"
      obtain r2 c2 where ll: "load_lessons uf rend c1 (Course_requested_lessons c1) = (r2, c2)"
        by (cases "load_lessons uf rend c1 (Course_requested_lessons c1)")
      have nf1: "\<not> Course_frozen c1" using "1.prems"(2) by (simp add: c1_def)
      from load_lessons_state[OF ll nf1] obtain L2 R2 where
        c2: "c2 = c1\<lparr>Course_lessons := L2, Course_requested_lessons := R2,
                Course_renderer_calls := Course_renderer_calls c1 @ [call]\<rparr>"
        and sub2: "set (keys (Course_lessons c1)) \<subseteq> set (keys L2)"
        and ok2: "r2 = Inr () \<longrightarrow>
                    set (keys L2) = set (keys (Course_lessons c1)) \<union> set (Course_requested_lessons c1)"
        unfolding call_def by blast
      have c2': "c2 = c\<lparr>Course_lessons := L2, Course_requested_lessons := R2,
                Course_renderer_calls := Course_renderer_calls c @ [call]\<rparr>"
        using c2 by (simp add: c1_def)
      have l1: "Course_lessons c1 = Course_lessons c" by (simp add: c1_def)
      have subc: "set (keys (Course_lessons c)) \<subseteq> set (keys L2)" using sub2 l1 by simp
      show ?thesis
      proof (cases r2)
        case (Inl e)
        with "1.prems" ne ne1 ll have rc: "r = Inl e" "c' = c2"
          by (simp_all add: c1_def[symmetric] Let_def)
        have "c' = c\<lparr>Course_lessons := L2, Course_requested_lessons := R2,
                Course_renderer_calls := Course_renderer_calls c @ [call]\<rparr>"
          using rc c2' by simp
        moreover have "length [call] \<le> nat d + 1" by simp
        moreover note subc
        moreover have "r = Inr () \<longrightarrow> length [call] \<le> nat d \<and> R2 = []
                 \<and> set (Course_requested_lessons c) \<subseteq> set (keys L2)
                 \<and> (links_closed c \<longrightarrow> links_closed c')"
          using rc by simp
        moreover have "length [call] = nat d + 1 \<longrightarrow> r \<noteq> Inr ()" using rc by simp
        moreover have "\<forall>e. r = Inl e \<longrightarrow> e = too_deep c
                 \<or> (\<exists>c1 slugs c2. load_lessons uf rend c1 slugs = (Inl e, c2))"
          using rc ll Inl by blast
        ultimately show ?thesis by blast
      next
        case (Inr u)
        then have r2: "r2 = Inr ()" by simp
        have slug2: "Course_slug c2 = Course_slug c" using c2' by simp
        show ?thesis
        proof (cases "d - 1 < 0")
          case True
          with "1.prems" ne ne1 ll Inr have rc: "r = Inl (too_deep c)" "c' = c2"
            by (simp_all add: c1_def[symmetric] Let_def too_deep_def slug2)
          have d0: "nat d = 0" using True "1.prems"(3) by simp
          have "c' = c\<lparr>Course_lessons := L2, Course_requested_lessons := R2,
                Course_renderer_calls := Course_renderer_calls c @ [call]\<rparr>"
            using rc c2' by simp
          moreover have "length [call] \<le> nat d + 1" by simp
          moreover note subc
          moreover have "r = Inr () \<longrightarrow> length [call] \<le> nat d \<and> R2 = []
                 \<and> set (Course_requested_lessons c) \<subseteq> set (keys L2)
                 \<and> (links_closed c \<longrightarrow> links_closed c')"
            using rc by simp
          moreover have "length [call] = nat d + 1 \<longrightarrow> r \<noteq> Inr ()" using rc by simp
          moreover have "\<forall>e. r = Inl e \<longrightarrow> e = too_deep c
                 \<or> (\<exists>c1 slugs c2. load_lessons uf rend c1 slugs = (Inl e, c2))"
            using rc by simp
          ultimately show ?thesis by blast
        next
          case False
          with "1.prems" ne ne1 ll Inr have rec: "load_all_loop uf rend c2 (d - 1) = (r, c')"
            by (simp add: c1_def[symmetric] Let_def)
          have nf2: "\<not> Course_frozen c2" using c2' "1.prems"(2) by simp
          have d1: "0 \<le> d - 1" using False by simp
          have "\<exists>L R calls. c' = c2\<lparr>Course_lessons := L, Course_requested_lessons := R,
                          Course_renderer_calls := Course_renderer_calls c2 @ calls\<rparr>
           \<and> length calls \<le> nat (d - 1) + 1
           \<and> set (keys (Course_lessons c2)) \<subseteq> set (keys L)
           \<and> (r = Inr () \<longrightarrow> length calls \<le> nat (d - 1) \<and> R = []
                 \<and> set (Course_requested_lessons c2) \<subseteq> set (keys L)
                 \<and> (links_closed c2 \<longrightarrow> links_closed c'))
           \<and> (length calls = nat (d - 1) + 1 \<longrightarrow> r \<noteq> Inr ())
           \<and> (\<forall>e. r = Inl e \<longrightarrow> e = too_deep c2
                 \<or> (\<exists>c1 slugs c2. load_lessons uf rend c1 slugs = (Inl e, c2)))"
            by (rule "1.IH"[OF ne c1_def ne1 ll[symmetric] Inr False rec nf2 d1])
          then obtain L R calls where
            c': "c' = c2\<lparr>Course_lessons := L, Course_requested_lessons := R,
                          Course_renderer_calls := Course_renderer_calls c2 @ calls\<rparr>"
            and len: "length calls \<le> nat (d - 1) + 1"
            and sub: "set (keys (Course_lessons c2)) \<subseteq> set (keys L)"
            and ok: "r = Inr () \<longrightarrow> length calls \<le> nat (d - 1) \<and> R = []
                 \<and> set (Course_requested_lessons c2) \<subseteq> set (keys L)
                 \<and> (links_closed c2 \<longrightarrow> links_closed c')"
            and full: "length calls = nat (d - 1) + 1 \<longrightarrow> r \<noteq> Inr ()"
            and err: "\<forall>e. r = Inl e \<longrightarrow> e = too_deep c2
                 \<or> (\<exists>c1 slugs c2. load_lessons uf rend c1 slugs = (Inl e, c2))"
            by blast
          have td: "too_deep c2 = too_deep c" by (simp add: too_deep_def slug2)
          have nd: "nat d = nat (d - 1) + 1" using False by simp
          have lc2: "links_closed c \<longrightarrow> links_closed c2"
            using load_lessons_links_closed[OF ll[unfolded r2] nf1]
              links_closed_difference_update[of c] by (simp add: c1_def)
          have rqsub: "set (Course_requested_lessons c) \<subseteq> set (keys L2)"
            using ok2 r2 l1 by (auto simp: c1_def difference_update_def)
          have L2: "Course_lessons c2 = L2" using c2' by simp
          have "c' = c\<lparr>Course_lessons := L, Course_requested_lessons := R,
                Course_renderer_calls := Course_renderer_calls c @ (call # calls)\<rparr>"
            using c' c2' by simp
          moreover have "length (call # calls) \<le> nat d + 1" using len nd by simp
          moreover have "set (keys (Course_lessons c)) \<subseteq> set (keys L)"
            using sub subc L2 by simp
          moreover have "r = Inr () \<longrightarrow> length (call # calls) \<le> nat d \<and> R = []
                 \<and> set (Course_requested_lessons c) \<subseteq> set (keys L)
                 \<and> (links_closed c \<longrightarrow> links_closed c')"
            using ok nd lc2 rqsub sub L2 by auto
          moreover have "length (call # calls) = nat d + 1 \<longrightarrow> r \<noteq> Inr ()"
            using full nd by simp
          moreover have "\<forall>e. r = Inl e \<longrightarrow> e = too_deep c
                 \<or> (\<exists>c1 slugs c2. load_lessons uf rend c1 slugs = (Inl e, c2))"
            using err td by simp
          ultimately show ?thesis by blast
        qed
      qed
    qed
  qed
qed

lemma load_all_lessons_state:
  assumes "load_all_lessons uf rend c = (r, c')" and "\<not> Course_frozen c"
  shows "\<exists>L R calls. c' = c\<lparr>Course_lessons := L, Course_requested_lessons := R,
                          Course_renderer_calls := Course_renderer_calls c @ calls\<rparr>
           \<and> length calls \<le> 51
           \<and> set (keys (Course_lessons c)) \<subseteq> set (keys L)
           \<and> (r = Inr () \<longrightarrow> length calls \<le> 50 \<and> R = []
                 \<and> set (Course_requested_lessons c) \<subseteq> set (keys L)
                 \<and> (links_closed c \<longrightarrow> links_closed c'))
           \<and> (length calls = 51 \<longrightarrow> r \<noteq> Inr ())
           \<and> (\<forall>e. r = Inl e \<longrightarrow> e = too_deep c
                 \<or> (\<exists>c1 slugs c2. load_lessons uf rend c1 slugs = (Inl e, c2)))"
proof -
  define c1 where "c1 = c\<lparr>Course_requested_lessons :=
                     difference_update (Course_requested_lessons c) (Course_lessons c)\<rparr>"
  have lp: "load_all_loop uf rend c1 50 = (r, c')"
    using assms by (simp add: load_all_lessons_def c1_def)
  have nf1: "\<not> Course_frozen c1" using assms(2) by (simp add: c1_def)
  from load_all_loop_state[OF lp nf1] obtain L R calls where
    c': "c' = c1\<lparr>Course_lessons := L, Course_requested_lessons := R,
                          Course_renderer_calls := Course_renderer_calls c1 @ calls\<rparr>"
    and len: "length calls \<le> nat 50 + 1"
    and sub: "set (keys (Course_lessons c1)) \<subseteq> set (keys L)"
    and ok: "r = Inr () \<longrightarrow> length calls \<le> nat 50 \<and> R = []
                 \<and> set (Course_requested_lessons c1) \<subseteq> set (keys L)
                 \<and> (links_closed c1 \<longrightarrow> links_closed c')"
    and full: "length calls = nat 50 + 1 \<longrightarrow> r \<noteq> Inr ()"
    and err: "\<forall>e. r = Inl e \<longrightarrow> e = too_deep c1
                 \<or> (\<exists>c1 slugs c2. load_lessons uf rend c1 slugs = (Inl e, c2))"
    by auto
  have "c' = c\<lparr>Course_lessons := L, Course_requested_lessons := R,
                          Course_renderer_calls := Course_renderer_calls c @ calls\<rparr>"
    using c' by (simp add: c1_def)
  moreover have "length calls \<le> 51" using len by simp
  moreover have s1: "set (keys (Course_lessons c)) \<subseteq> set (keys L)" using sub by (simp add: c1_def)
  moreover have "r = Inr () \<longrightarrow> length calls \<le> 50 \<and> R = []
                 \<and> set (Course_requested_lessons c) \<subseteq> set (keys L)
                 \<and> (links_closed c \<longrightarrow> links_closed c')"
  proof
    assume a: "r = Inr ()"
    have "set (Course_requested_lessons c) \<subseteq> set (keys L)"
      using ok a s1 by (auto simp: c1_def difference_update_def)
    moreover have "links_closed c \<longrightarrow> links_closed c'"
      using ok a links_closed_difference_update[of c] by (simp add: c1_def)
    ultimately show "length calls \<le> 50 \<and> R = []
                 \<and> set (Course_requested_lessons c) \<subseteq> set (keys L)
                 \<and> (links_closed c \<longrightarrow> links_closed c')"
      using ok a by simp
  qed
  moreover have "length calls = 51 \<longrightarrow> r \<noteq> Inr ()" using full by simp
  moreover have "\<forall>e. r = Inl e \<longrightarrow> e = too_deep c
                 \<or> (\<exists>c1 slugs c2. load_lessons uf rend c1 slugs = (Inl e, c2))"
    using err by (simp add: too_deep_def c1_def)
  ultimately show ?thesis by blast
qed

lemma load_all_lessons_frozen:
  "Course_frozen c \<Longrightarrow> load_all_lessons uf rend c = (Inr (), c)"
  by (simp add: load_all_lessons_def)



lemma load_all_lessons_bound:
  "\<exists>calls. Course_renderer_calls (snd (load_all_lessons uf rend c)) = Course_renderer_calls c @ calls
     \<and> length calls \<le> 51
     \<and> (fst (load_all_lessons uf rend c) = Inr () \<longrightarrow>
           length calls \<le> 50
           \<and> (\<not> Course_frozen c \<longrightarrow> Course_requested_lessons (snd (load_all_lessons uf rend c)) = []))
     \<and> (length calls = 51 \<longrightarrow> fst (load_all_lessons uf rend c) \<noteq> Inr ())
     \<and> (\<forall>e. fst (load_all_lessons uf rend c) = Inl e \<longrightarrow>
           e = ValueError (''Lessons in course '' @ Course_slug c @ '' are linked too deeply'')
           \<or> (\<exists>c1 slugs c2. load_lessons uf rend c1 slugs = (Inl e, c2)))"
proof (cases "Course_frozen c")
  case True
  then have "load_all_lessons uf rend c = (Inr (), c)" by (rule load_all_lessons_frozen)
  then show ?thesis using True by (intro exI[of _ "[]"]) simp
next
  case False
  obtain r c' where l: "load_all_lessons uf rend c = (r, c')"
    by (cases "load_all_lessons uf rend c")
  from load_all_lessons_state[OF l False] obtain L R calls where
    c': "c' = c\<lparr>Course_lessons := L, Course_requested_lessons := R,
                          Course_renderer_calls := Course_renderer_calls c @ calls\<rparr>"
    and len: "length calls \<le> 51"
    and ok: "r = Inr () \<longrightarrow> length calls \<le> 50 \<and> R = []"
    and full: "length calls = 51 \<longrightarrow> r \<noteq> Inr ()"
    and err: "\<forall>e. r = Inl e \<longrightarrow> e = too_deep c
                 \<or> (\<exists>c1 slugs c2. load_lessons uf rend c1 slugs = (Inl e, c2))"
    by blast
  have "Course_renderer_calls (snd (load_all_lessons uf rend c)) = Course_renderer_calls c @ calls"
    using l c' by simp
  moreover note len
  moreover have "fst (load_all_lessons uf rend c) = Inr () \<longrightarrow>
           length calls \<le> 50
           \<and> (\<not> Course_frozen c \<longrightarrow> Course_requested_lessons (snd (load_all_lessons uf rend c)) = [])"
    using l c' ok by simp
  moreover have "length calls = 51 \<longrightarrow> fst (load_all_lessons uf rend c) \<noteq> Inr ()"
    using l full by simp
  moreover have "\<forall>e. fst (load_all_lessons uf rend c) = Inl e \<longrightarrow>
           e = ValueError (''Lessons in course '' @ Course_slug c @ '' are linked too deeply'')
           \<or> (\<exists>c1 slugs c2. load_lessons uf rend c1 slugs = (Inl e, c2))"
    using l err by (simp add: too_deep_def)
  ultimately show ?thesis by blast
qed


lemma course_inv_init: "course_inv (Course_init slug base_path)"
  by (simp add: course_inv_def links_closed_def Course_init_def keys_def)

lemma course_inv_get_lesson_url:
  assumes "get_lesson_url uf c slug page kw = (r, c')" and "course_inv c"
  shows "course_inv c'"
proof -
  from get_lesson_url_state[OF assms(1)] obtain R where
    c': "c' = c\<lparr>Course_requested_lessons := R\<rparr>"
    and sub: "set (Course_requested_lessons c) \<subseteq> set R" by blast
  have fr: "Course_frozen c \<Longrightarrow> c' = c"
    using assms(1) by (auto simp: get_lesson_url_def split: if_splits)
  have "links_closed c'"
  proof (rule links_closedI)
    fix s l lk
    assume "map_of (Course_lessons c') s = Some l" and k: "lk \<in> set (Lesson_content_links l)"
    then have "map_of (Course_lessons c) s = Some l" by (simp add: c')
    from links_closedD[OF _ this k] assms(2)
    show "fst lk \<in> set (keys (Course_lessons c')) \<union> set (Course_requested_lessons c')"
      using sub by (auto simp: c' course_inv_def)
  qed
  moreover have "Course_frozen c' \<longrightarrow> Course_requested_lessons c' = []"
    using fr assms(2) c' by (auto simp: course_inv_def)
  ultimately show ?thesis by (simp add: course_inv_def)
qed

lemma course_inv_load_lessons:
  assumes "load_lessons uf rend c slugs = (Inr (), c')" and "course_inv c"
  shows "course_inv c'"
proof -
  have nf: "\<not> Course_frozen c" using assms(1) by (rule load_lessons_not_frozen)
  have "links_closed c'"
    using load_lessons_links_closed[OF assms(1) nf] assms(2) by (simp add: course_inv_def)
  moreover from load_lessons_state[OF assms(1) nf] have "\<not> Course_frozen c'" using nf by auto
  ultimately show ?thesis by (simp add: course_inv_def)
qed

subsection \<open>The chain of lessons, evaluated\<close>

lemma chain_51:
  "(case load_all_lessons chain_url_factories (chain_renderer 51) chain_course of
      (r, c') \<Rightarrow> (r, length (Course_renderer_calls c'), length (Course_lessons c')))
   = (Inl (ValueError ''Lessons in course chain are linked too deeply''), 51, 51)"
  by code_simp

lemma chain_50:
  "(case load_all_lessons chain_url_factories (chain_renderer 50) chain_course of
      (r, c') \<Rightarrow> (r, length (Course_renderer_calls c'), length (Course_lessons c')))
   = (Inr (), 50, 50)"
  by code_simp

subsection \<open>Loading lessons\<close>

lemma load_lessons_success:
  assumes "load_lessons uf rend c slugs = (Inr (), c')"
  shows "\<exists>fetched new.
      Course_renderer_calls c' = Course_renderer_calls c @ [fetched]
      \<and> distinct fetched \<and> set fetched = set slugs - set (keys (Course_lessons c))
      \<and> rend fetched (Course_vars c) (Course_base_path c) = Inr new
      \<and> (\<forall>s \<in> set fetched. map_of (Course_lessons c') s = map_of new s \<and> map_of new s \<noteq> None
             \<and> s \<notin> set (Course_requested_lessons c'))
      \<and> (\<forall>s. s \<notin> set fetched \<longrightarrow> map_of (Course_lessons c') s = map_of (Course_lessons c) s)
      \<and> set (keys (Course_lessons c')) = set (keys (Course_lessons c)) \<union> set slugs
      \<and> Course_renderer_calls (snd (load_lessons uf rend c' slugs))
          = Course_renderer_calls c' @ [[]]"
proof -
  have nf: "\<not> Course_frozen c" using assms by (rule load_lessons_not_frozen)
  define fetched where "fetched = slugs_to_load c slugs"
  from load_lessons_state[OF assms nf] obtain L R where
    c': "c' = c\<lparr>Course_lessons := L, Course_requested_lessons := R,
                 Course_renderer_calls := Course_renderer_calls c @ [fetched]\<rparr>"
    and ex: "\<exists>new. rend fetched (Course_vars c) (Course_base_path c) = Inr new
                   \<and> (\<forall>s. map_of L s = (if s \<in> set fetched then map_of new s
                                          else map_of (Course_lessons c) s))
                   \<and> (\<forall>s \<in> set fetched. map_of new s \<noteq> None)
                   \<and> (\<forall>sl \<in> set new. \<forall>lk \<in> set (Lesson_content_links (snd sl)).
                         fst lk \<in> set (keys L) \<union> set R)"
    and ks: "set (keys L) = set (keys (Course_lessons c)) \<union> set slugs"
    and dj: "set R \<inter> set fetched = {}"
    unfolding fetched_def by blast
  from ex obtain new where
    rn: "rend fetched (Course_vars c) (Course_base_path c) = Inr new"
    and mo: "\<forall>s. map_of L s = (if s \<in> set fetched then map_of new s
                                          else map_of (Course_lessons c) s)"
    and nn: "\<forall>s \<in> set fetched. map_of new s \<noteq> None"
    by blast
  have L: "Course_lessons c' = L" and R: "Course_requested_lessons c' = R"
    and calls: "Course_renderer_calls c' = Course_renderer_calls c @ [fetched]"
    and nf': "\<not> Course_frozen c'"
    using c' nf by simp_all
  have again: "slugs_to_load c' slugs = []"
    using ks L by (auto simp: slugs_to_load_def difference_update_def filter_empty_conv)
  obtain r2 c2 where l2: "load_lessons uf rend c' slugs = (r2, c2)"
    by (cases "load_lessons uf rend c' slugs")
  from load_lessons_state[OF l2 nf'] again
  have c2: "Course_renderer_calls c2 = Course_renderer_calls c' @ [[]]" by auto
  have "Course_renderer_calls c' = Course_renderer_calls c @ [fetched]" by (rule calls)
  moreover have "distinct fetched" "set fetched = set slugs - set (keys (Course_lessons c))"
    by (simp_all add: fetched_def set_slugs_to_load)
  moreover note rn
  moreover have "\<forall>s \<in> set fetched. map_of (Course_lessons c') s = map_of new s
       \<and> map_of new s \<noteq> None \<and> s \<notin> set (Course_requested_lessons c')"
    using mo nn dj L R by auto
  moreover have "\<forall>s. s \<notin> set fetched \<longrightarrow> map_of (Course_lessons c') s = map_of (Course_lessons c) s"
    using mo L by simp
  moreover have "set (keys (Course_lessons c')) = set (keys (Course_lessons c)) \<union> set slugs"
    using ks L by simp
  moreover have "Course_renderer_calls (snd (load_lessons uf rend c' slugs))
          = Course_renderer_calls c' @ [[]]"
    using l2 c2 by simp
  ultimately show ?thesis by blast
qed

text \<open>
  Claim C6. On a course that is not frozen, \<open>load_lessons(slugs)\<close> asks the renderer
  once, for exactly the given slugs that were not loaded yet, whether or not the call
  then returns. When it returns, each of those slugs is in \<open>_lessons\<close> with the lesson the
  renderer returned for it and is no longer in \<open>_requested_lessons\<close>; the lessons loaded
  before are unchanged; and a second call with the same slugs asks the renderer for the
  empty set.
\<close>

theorem load_lessons_fetches_missing_only:
  assumes "\<not> Course_frozen c"
  shows "(\<exists>fetched.
      Course_renderer_calls (snd (load_lessons uf rend c slugs))
        = Course_renderer_calls c @ [fetched]
      \<and> distinct fetched \<and> set fetched = set slugs - set (keys (Course_lessons c)))
   \<and> (load_lessons uf rend c slugs = (Inr (), c') \<longrightarrow>
        (\<exists>fetched new.
           Course_renderer_calls c' = Course_renderer_calls c @ [fetched]
           \<and> distinct fetched \<and> set fetched = set slugs - set (keys (Course_lessons c))
           \<and> rend fetched (Course_vars c) (Course_base_path c) = Inr new
           \<and> (\<forall>s \<in> set fetched. map_of (Course_lessons c') s = map_of new s
                  \<and> map_of new s \<noteq> None \<and> s \<notin> set (Course_requested_lessons c'))
           \<and> (\<forall>s. s \<notin> set fetched \<longrightarrow>
                  map_of (Course_lessons c') s = map_of (Course_lessons c) s)
           \<and> set (keys (Course_lessons c')) = set (keys (Course_lessons c)) \<union> set slugs
           \<and> Course_renderer_calls (snd (load_lessons uf rend c' slugs))
               = Course_renderer_calls c' @ [[]]))"
proof -
  obtain r1 c1 where l: "load_lessons uf rend c slugs = (r1, c1)"
    by (cases "load_lessons uf rend c slugs")
  from load_lessons_state[OF l assms]
  have "Course_renderer_calls c1 = Course_renderer_calls c @ [slugs_to_load c slugs]"
    by auto
  then have "Course_renderer_calls (snd (load_lessons uf rend c slugs))
        = Course_renderer_calls c @ [slugs_to_load c slugs]
      \<and> distinct (slugs_to_load c slugs)
      \<and> set (slugs_to_load c slugs) = set slugs - set (keys (Course_lessons c))"
    using l by (simp add: set_slugs_to_load)
  then show ?thesis using load_lessons_success[of uf rend c slugs c'] by blast
qed

theorem load_lessons_fetches_missing_only_witness:
  "\<not> Course_frozen chain_course
   \<and> load_lessons chain_url_factories (chain_renderer 2) chain_course [''01'']
     = (Inr (),
        \<lparr>Course_slug = ''chain'', Course_frozen = False,
         Course_lessons =
           [(''01'', \<lparr>Lesson_title = ''01'', Lesson_content_links = [(''02'', ''index'')]\<rparr>)],
         Course_requested_lessons = [''02''], Course_vars = [],
         Course_base_path = None, Course_default_time = None,
         Course_timezone = None, Course_start_date = None,
         Course_end_date = None, Course_renderer_calls = [[''01'']]\<rparr>)
   \<and> Course_renderer_calls (snd (load_lessons chain_url_factories (chain_renderer 2)
        \<lparr>Course_slug = ''chain'', Course_frozen = False,
         Course_lessons =
           [(''01'', \<lparr>Lesson_title = ''01'', Lesson_content_links = [(''02'', ''index'')]\<rparr>)],
         Course_requested_lessons = [''02''], Course_vars = [],
         Course_base_path = None, Course_default_time = None,
         Course_timezone = None, Course_start_date = None,
         Course_end_date = None, Course_renderer_calls = [[''01'']]\<rparr> [''01'']))
       = [[''01''], []]"
proof -
  let ?c1 = "\<lparr>Course_slug = ''chain'', Course_frozen = False,
         Course_lessons =
           [(''01'', \<lparr>Lesson_title = ''01'', Lesson_content_links = [(''02'', ''index'')]\<rparr>)],
         Course_requested_lessons = [''02''], Course_vars = [],
         Course_base_path = None, Course_default_time = None,
         Course_timezone = None, Course_start_date = None,
         Course_end_date = None, Course_renderer_calls = [[''01'']]\<rparr>"
  have h: "load_lessons chain_url_factories (chain_renderer 2) chain_course [''01''] = (Inr (), ?c1)"
    by code_simp
  have nf: "\<not> Course_frozen chain_course" by (simp add: chain_course_def Course_init_def)
  from load_lessons_fetches_missing_only [OF nf, of chain_url_factories "chain_renderer 2"
      "[''01'']" ?c1] h
  have "Course_renderer_calls (snd (load_lessons chain_url_factories (chain_renderer 2) ?c1 [''01'']))
          = Course_renderer_calls ?c1 @ [[]]"
    by blast
  with h nf show ?thesis by simp
qed

text \<open>
  Claim C1. \<open>load_all_lessons\<close> is a total function: the loop is defined by recursion on
  \<open>link_depth\<close>, with its termination proved. It asks the renderer at most 51 times, and
  at most 50 times when it returns normally, in which case no lesson of a course that was
  not frozen is left requested. When it raises, the exception is the \<open>ValueError\<close> that
  names the course or one that a call of \<open>load_lessons\<close> raised; after 51 rounds it
  always raises. On a chain of 51 lessons, each linking the next, it raises that
  \<open>ValueError\<close>; on a chain of 50 it returns.
\<close>

theorem load_all_lessons_terminates_within_bound:
  "(\<exists>calls. Course_renderer_calls (snd (load_all_lessons uf rend c)) = Course_renderer_calls c @ calls
     \<and> length calls \<le> 51
     \<and> (fst (load_all_lessons uf rend c) = Inr () \<longrightarrow>
           length calls \<le> 50
           \<and> (\<not> Course_frozen c \<longrightarrow> Course_requested_lessons (snd (load_all_lessons uf rend c)) = []))
     \<and> (length calls = 51 \<longrightarrow> fst (load_all_lessons uf rend c) \<noteq> Inr ())
     \<and> (\<forall>e. fst (load_all_lessons uf rend c) = Inl e \<longrightarrow>
           e = ValueError (''Lessons in course '' @ Course_slug c @ '' are linked too deeply'')
           \<or> (\<exists>c1 slugs c2. load_lessons uf rend c1 slugs = (Inl e, c2))))
   \<and> fst (load_all_lessons chain_url_factories (chain_renderer 51) chain_course)
       = Inl (ValueError ''Lessons in course chain are linked too deeply'')
   \<and> length (Course_renderer_calls
        (snd (load_all_lessons chain_url_factories (chain_renderer 51) chain_course))) = 51
   \<and> fst (load_all_lessons chain_url_factories (chain_renderer 50) chain_course) = Inr ()"
proof -
  have a: "fst (load_all_lessons chain_url_factories (chain_renderer 51) chain_course)
       = Inl (ValueError ''Lessons in course chain are linked too deeply'')"
    and b: "length (Course_renderer_calls
        (snd (load_all_lessons chain_url_factories (chain_renderer 51) chain_course))) = 51"
    using chain_51 by (simp_all split: prod.splits)
  have c: "fst (load_all_lessons chain_url_factories (chain_renderer 50) chain_course) = Inr ()"
    using chain_50 by (simp split: prod.splits)
  from load_all_lessons_bound [of uf rend c] a b c show ?thesis by blast
qed

theorem load_all_lessons_terminates_within_bound_witness:
  "fst (load_all_lessons chain_url_factories (chain_renderer 51) chain_course) \<noteq> Inr ()
   \<and> length (Course_renderer_calls
        (snd (load_all_lessons chain_url_factories (chain_renderer 50) chain_course))) \<le> 50
   \<and> Course_requested_lessons
        (snd (load_all_lessons chain_url_factories (chain_renderer 50) chain_course)) = []"
proof -
  have nf: "\<not> Course_frozen chain_course" and e: "Course_renderer_calls chain_course = []"
    by (simp_all add: chain_course_def Course_init_def)
  note t51 = load_all_lessons_terminates_within_bound
    [of chain_url_factories "chain_renderer 51" chain_course]
  note t50 = load_all_lessons_terminates_within_bound
    [of chain_url_factories "chain_renderer 50" chain_course]
  from t51 e have "fst (load_all_lessons chain_url_factories (chain_renderer 51) chain_course) \<noteq> Inr ()"
    by auto
  moreover from t50 nf e have
    "length (Course_renderer_calls
        (snd (load_all_lessons chain_url_factories (chain_renderer 50) chain_course))) \<le> 50
     \<and> Course_requested_lessons
        (snd (load_all_lessons chain_url_factories (chain_renderer 50) chain_course)) = []"
    by auto
  ultimately show ?thesis by blast
qed




section \<open>Session times\<close>

lemma set_alist_update: "set (AList.update k v al) \<subseteq> insert (k, v) (set al)"
  by (induction al) auto











section \<open>Adding courses to the root\<close>

lemma map_of_distinct_mem:
  "distinct (keys al) \<Longrightarrow> (k, v) \<in> set al \<Longrightarrow> map_of al k = Some v"
  by (simp add: keys_def)

lemma run_year_entry_SomeD:
  assumes "run_year_entry r y s = Some c"
  shows "\<exists>ry. (y, ry) \<in> set (Root_run_years r) \<and> (s, c) \<in> set (RunYear_runs ry)"
  using assms
  by (auto simp: run_year_entry_def split: option.splits dest: map_of_SomeD)

lemma run_year_entry_mem:
  assumes "dicts_distinct r" and "(y, ry) \<in> set (Root_run_years r)"
    and "(s, c) \<in> set (RunYear_runs ry)"
  shows "run_year_entry r y s = Some c"
proof -
  have "map_of (Root_run_years r) y = Some ry"
    using assms(1,2) by (simp add: dicts_distinct_def map_of_distinct_mem)
  moreover have "distinct (keys (RunYear_runs ry))"
    using assms(1,2) by (force simp: dicts_distinct_def)
  then have "map_of (RunYear_runs ry) s = Some c"
    using assms(3) by (simp add: map_of_distinct_mem)
  ultimately show ?thesis by (simp add: run_year_entry_def)
qed

lemma indices_consistent_iff: "indices_consistent r \<longleftrightarrow> indexed_except {} r"
proof
  assume ic: "indices_consistent r"
  then have dd: "dicts_distinct r" by (simp add: indices_consistent_def dicts_distinct_def)
  have c: "Course_slug c = s \<and> dates_paired c
            \<and> (if Course_start_date c = None
               then map_of (Root_self_study_courses r) s = Some c
               else (\<forall>y \<in> set (index_years c). run_year_entry r y s = Some c))"
    if "map_of (Root_courses r) s = Some c" for s c
  proof -
    from that have "(s, c) \<in> set (Root_courses r)" by (rule map_of_SomeD)
    with ic show ?thesis unfolding indices_consistent_def by fastforce
  qed
  have s: "map_of (Root_courses r) s = Some c \<and> Course_start_date c = None"
    if "map_of (Root_self_study_courses r) s = Some c" for s c
  proof -
    from that have "(s, c) \<in> set (Root_self_study_courses r)" by (rule map_of_SomeD)
    with ic show ?thesis unfolding indices_consistent_def by fastforce
  qed
  have e: "map_of (Root_courses r) s = Some c \<and> y \<in> set (index_years c)"
    if "run_year_entry r y s = Some c" for y s c
  proof -
    from run_year_entry_SomeD[OF that] obtain ry where
      "(y, ry) \<in> set (Root_run_years r)" "(s, c) \<in> set (RunYear_runs ry)" by blast
    with ic show ?thesis unfolding indices_consistent_def by fastforce
  qed
  show "indexed_except {} r"
    unfolding indexed_except_def using dd c s e by blast
next
  assume ie: "indexed_except {} r"
  then have dd: "dicts_distinct r" by (simp add: indexed_except_def)
  have c: "\<forall>sc \<in> set (Root_courses r).
            Course_slug (snd sc) = fst sc \<and> dates_paired (snd sc)
            \<and> (if Course_start_date (snd sc) = None
               then map_of (Root_self_study_courses r) (fst sc) = Some (snd sc)
               else (\<forall>y \<in> set (index_years (snd sc)).
                       run_year_entry r y (fst sc) = Some (snd sc)))"
  proof
    fix sc assume "sc \<in> set (Root_courses r)"
    then have "map_of (Root_courses r) (fst sc) = Some (snd sc)"
      using dd by (simp add: dicts_distinct_def keys_def)
    with ie show "Course_slug (snd sc) = fst sc \<and> dates_paired (snd sc)
            \<and> (if Course_start_date (snd sc) = None
               then map_of (Root_self_study_courses r) (fst sc) = Some (snd sc)
               else (\<forall>y \<in> set (index_years (snd sc)).
                       run_year_entry r y (fst sc) = Some (snd sc)))"
      unfolding indexed_except_def by blast
  qed
  have s: "\<forall>sc \<in> set (Root_self_study_courses r).
            map_of (Root_courses r) (fst sc) = Some (snd sc)
            \<and> Course_start_date (snd sc) = None"
  proof
    fix sc assume "sc \<in> set (Root_self_study_courses r)"
    then have "map_of (Root_self_study_courses r) (fst sc) = Some (snd sc)"
      using dd by (simp add: dicts_distinct_def keys_def)
    with ie show "map_of (Root_courses r) (fst sc) = Some (snd sc)
            \<and> Course_start_date (snd sc) = None"
      unfolding indexed_except_def by blast
  qed
  have e: "\<forall>yr \<in> set (Root_run_years r). \<forall>sc \<in> set (RunYear_runs (snd yr)).
            map_of (Root_courses r) (fst sc) = Some (snd sc)
            \<and> fst yr \<in> set (index_years (snd sc))"
  proof (intro ballI)
    fix yr sc assume "yr \<in> set (Root_run_years r)" "sc \<in> set (RunYear_runs (snd yr))"
    then have "run_year_entry r (fst yr) (fst sc) = Some (snd sc)"
      using run_year_entry_mem[OF dd, of "fst yr" "snd yr" "fst sc" "snd sc"] by simp
    with ie show "map_of (Root_courses r) (fst sc) = Some (snd sc)
            \<and> fst yr \<in> set (index_years (snd sc))"
      unfolding indexed_except_def by blast
  qed
  show "indices_consistent r"
    unfolding indices_consistent_def using dd c s e by (simp add: dicts_distinct_def)
qed


lemma run_year_entry_update:
  "run_year_entry (r\<lparr>Root_run_years := AList.update y ry (Root_run_years r)\<rparr>) y' s
     = (if y' = y then map_of (RunYear_runs ry) s else run_year_entry r y' s)"
  by (simp add: run_year_entry_def update_conv')

lemma dicts_distinct_update_run_year:
  assumes "dicts_distinct r" and "distinct (keys (RunYear_runs ry))"
  shows "dicts_distinct (r\<lparr>Root_run_years := AList.update y ry (Root_run_years r)\<rparr>)"
proof -
  have "distinct (keys (AList.update y ry (Root_run_years r)))"
    using assms(1) by (simp add: dicts_distinct_def keys_def distinct_update)
  moreover have "\<forall>yr \<in> set (AList.update y ry (Root_run_years r)).
                   distinct (keys (RunYear_runs (snd yr)))"
  proof
    fix yr assume "yr \<in> set (AList.update y ry (Root_run_years r))"
    then have "yr = (y, ry) \<or> yr \<in> set (Root_run_years r)"
      using set_alist_update[of y ry "Root_run_years r"] by auto
    then show "distinct (keys (RunYear_runs (snd yr)))"
      using assms by (auto simp: dicts_distinct_def)
  qed
  ultimately show ?thesis using assms(1) by (simp add: dicts_distinct_def)
qed

lemma dicts_distinct_run_year:
  assumes "dicts_distinct r" and "map_of (Root_run_years r) y = Some ry"
  shows "distinct (keys (RunYear_runs ry))"
proof -
  from assms(2) have "(y, ry) \<in> set (Root_run_years r)" by (rule map_of_SomeD)
  with assms(1) show ?thesis by (force simp: dicts_distinct_def)
qed

lemma del_run_years_effect:
  assumes "dicts_distinct r" and "distinct ys"
    and "\<forall>y \<in> set ys. run_year_entry r y slug \<noteq> None"
  shows "\<exists>r'. del_run_years slug r ys = (Inr (), r')
           \<and> Root_courses r' = Root_courses r
           \<and> Root_self_study_courses r' = Root_self_study_courses r
           \<and> dicts_distinct r'
           \<and> (\<forall>y s. run_year_entry r' y s
                 = (if s = slug \<and> y \<in> set ys then None else run_year_entry r y s))"
  using assms
proof (induction ys arbitrary: r)
  case Nil
  then show ?case by simp
next
  case (Cons y ys)
  from Cons.prems(3) obtain old where e: "run_year_entry r y slug = Some old" by auto
  then obtain ry where ry: "map_of (Root_run_years r) y = Some ry"
    and os: "map_of (RunYear_runs ry) slug = Some old"
    by (auto simp: run_year_entry_def split: option.splits)
  define ry' where "ry' = ry\<lparr>RunYear_runs := AList.delete slug (RunYear_runs ry)\<rparr>"
  define r2 where "r2 = r\<lparr>Root_run_years := AList.update y ry' (Root_run_years r)\<rparr>"
  have step: "del_run_years slug r (y # ys) = del_run_years slug r2 ys"
    using ry os by (simp add: r2_def ry'_def)
  have dry: "distinct (keys (RunYear_runs ry'))"
    using dicts_distinct_run_year[OF Cons.prems(1) ry]
    by (simp add: ry'_def keys_def distinct_delete)
  have d2: "dicts_distinct r2"
    unfolding r2_def using Cons.prems(1) dry by (rule dicts_distinct_update_run_year)
  have e2: "run_year_entry r2 y' s
              = (if s = slug \<and> y' = y then None else run_year_entry r y' s)" for y' s
  proof -
    have "map_of (RunYear_runs ry) s = run_year_entry r y s"
      using ry by (simp add: run_year_entry_def)
    then show ?thesis
      by (simp add: r2_def run_year_entry_update ry'_def delete_conv')
  qed
  have ys: "distinct ys" "y \<notin> set ys" using Cons.prems(2) by simp_all
  have p3: "\<forall>y' \<in> set ys. run_year_entry r2 y' slug \<noteq> None"
    using Cons.prems(3) ys(2) by (auto simp: e2)
  from Cons.IH[OF d2 ys(1) p3] obtain r' where
    r': "del_run_years slug r2 ys = (Inr (), r')"
    and c': "Root_courses r' = Root_courses r2"
    and s': "Root_self_study_courses r' = Root_self_study_courses r2"
    and d': "dicts_distinct r'"
    and e': "\<forall>y' s. run_year_entry r' y' s
                 = (if s = slug \<and> y' \<in> set ys then None else run_year_entry r2 y' s)"
    by blast
  have "del_run_years slug r (y # ys) = (Inr (), r')" using step r' by simp
  moreover have "Root_courses r' = Root_courses r" using c' by (simp add: r2_def)
  moreover have "Root_self_study_courses r' = Root_self_study_courses r"
    using s' by (simp add: r2_def)
  moreover note d'
  moreover have "\<forall>y' s. run_year_entry r' y' s
                 = (if s = slug \<and> y' \<in> set (y # ys) then None else run_year_entry r y' s)"
    using e' e2 by auto
  ultimately show ?case by blast
qed

lemma add_run_years_effect:
  assumes "dicts_distinct r"
  shows "Root_courses (add_run_years course r ys) = Root_courses r
           \<and> Root_self_study_courses (add_run_years course r ys) = Root_self_study_courses r
           \<and> dicts_distinct (add_run_years course r ys)
           \<and> (\<forall>y s. run_year_entry (add_run_years course r ys) y s
                 = (if s = Course_slug course \<and> y \<in> set ys then Some course
                    else run_year_entry r y s))"
  using assms
proof (induction ys arbitrary: r)
  case Nil
  then show ?case by simp
next
  case (Cons y ys)
  define ry where "ry = (case map_of (Root_run_years r) y of
                  None \<Rightarrow> \<lparr>RunYear_year = y, RunYear_runs = []\<rparr>
                | Some ry \<Rightarrow> ry)"
  define ry' where
    "ry' = ry\<lparr>RunYear_runs := AList.update (Course_slug course) course (RunYear_runs ry)\<rparr>"
  define r2 where "r2 = r\<lparr>Root_run_years := AList.update y ry' (Root_run_years r)\<rparr>"
  have step: "add_run_years course r (y # ys) = add_run_years course r2 ys"
    by (simp add: r2_def ry'_def ry_def Let_def)
  have "distinct (keys (RunYear_runs ry))"
  proof (cases "map_of (Root_run_years r) y")
    case None
    then show ?thesis by (simp add: ry_def keys_def)
  next
    case (Some a)
    then show ?thesis using dicts_distinct_run_year[OF Cons.prems Some] by (simp add: ry_def)
  qed
  then have dry: "distinct (keys (RunYear_runs ry'))"
    by (simp add: ry'_def keys_def distinct_update)
  have d2: "dicts_distinct r2"
    unfolding r2_def using Cons.prems dry by (rule dicts_distinct_update_run_year)
  have old: "map_of (RunYear_runs ry) s = run_year_entry r y s" for s
    by (simp add: ry_def run_year_entry_def split: option.splits)
  have e2: "run_year_entry r2 y' s
              = (if s = Course_slug course \<and> y' = y then Some course else run_year_entry r y' s)"
    for y' s
    using old by (auto simp: r2_def run_year_entry_update ry'_def update_conv')
  from Cons.IH[OF d2] have
    c': "Root_courses (add_run_years course r2 ys) = Root_courses r2"
    and s': "Root_self_study_courses (add_run_years course r2 ys) = Root_self_study_courses r2"
    and d': "dicts_distinct (add_run_years course r2 ys)"
    and e': "\<forall>y' s. run_year_entry (add_run_years course r2 ys) y' s
                 = (if s = Course_slug course \<and> y' \<in> set ys then Some course
                    else run_year_entry r2 y' s)"
    by blast+
  have "Root_courses (add_run_years course r (y # ys)) = Root_courses r"
    using c' step by (simp add: r2_def)
  moreover have "Root_self_study_courses (add_run_years course r (y # ys))
                   = Root_self_study_courses r"
    using s' step by (simp add: r2_def)
  moreover have "dicts_distinct (add_run_years course r (y # ys))" using d' step by simp
  moreover have "\<forall>y' s. run_year_entry (add_run_years course r (y # ys)) y' s
                 = (if s = Course_slug course \<and> y' \<in> set (y # ys) then Some course
                    else run_year_entry r y' s)"
    using e' e2 step by auto
  ultimately show ?case by blast
qed


lemma indexed_exceptD:
  assumes "indexed_except X r"
  shows "dicts_distinct r"
    and "\<And>s c. s \<notin> X \<Longrightarrow> map_of (Root_courses r) s = Some c \<Longrightarrow>
            Course_slug c = s \<and> dates_paired c
            \<and> (Course_start_date c = None \<longrightarrow> map_of (Root_self_study_courses r) s = Some c)
            \<and> (Course_start_date c \<noteq> None \<longrightarrow>
                 (\<forall>y \<in> set (index_years c). run_year_entry r y s = Some c))"
    and "\<And>s c. map_of (Root_self_study_courses r) s = Some c \<Longrightarrow>
            s \<notin> X \<and> map_of (Root_courses r) s = Some c \<and> Course_start_date c = None"
    and "\<And>y s c. run_year_entry r y s = Some c \<Longrightarrow>
            s \<notin> X \<and> map_of (Root_courses r) s = Some c \<and> y \<in> set (index_years c)"
proof -
  show "dicts_distinct r" using assms by (simp add: indexed_except_def)
  show "Course_slug c = s \<and> dates_paired c
            \<and> (Course_start_date c = None \<longrightarrow> map_of (Root_self_study_courses r) s = Some c)
            \<and> (Course_start_date c \<noteq> None \<longrightarrow>
                 (\<forall>y \<in> set (index_years c). run_year_entry r y s = Some c))"
    if "s \<notin> X" "map_of (Root_courses r) s = Some c" for s c
  proof -
    from assms that have "Course_slug c = s \<and> dates_paired c
            \<and> (if Course_start_date c = None
               then map_of (Root_self_study_courses r) s = Some c
               else (\<forall>y \<in> set (index_years c). run_year_entry r y s = Some c))"
      unfolding indexed_except_def by blast
    then show ?thesis by (simp split: if_splits)
  qed
  show "s \<notin> X \<and> map_of (Root_courses r) s = Some c \<and> Course_start_date c = None"
    if "map_of (Root_self_study_courses r) s = Some c" for s c
    using assms that unfolding indexed_except_def by blast
  show "s \<notin> X \<and> map_of (Root_courses r) s = Some c \<and> y \<in> set (index_years c)"
    if "run_year_entry r y s = Some c" for y s c
    using assms that unfolding indexed_except_def by blast
qed

lemma indexed_exceptI:
  assumes "dicts_distinct r"
    and "\<And>s c. s \<notin> X \<Longrightarrow> map_of (Root_courses r) s = Some c \<Longrightarrow>
            Course_slug c = s \<and> dates_paired c
            \<and> (Course_start_date c = None \<longrightarrow> map_of (Root_self_study_courses r) s = Some c)
            \<and> (Course_start_date c \<noteq> None \<longrightarrow>
                 (\<forall>y \<in> set (index_years c). run_year_entry r y s = Some c))"
    and "\<And>s c. map_of (Root_self_study_courses r) s = Some c \<Longrightarrow>
            s \<notin> X \<and> map_of (Root_courses r) s = Some c \<and> Course_start_date c = None"
    and "\<And>y s c. run_year_entry r y s = Some c \<Longrightarrow>
            s \<notin> X \<and> map_of (Root_courses r) s = Some c \<and> y \<in> set (index_years c)"
  shows "indexed_except X r"
proof -
  have "Course_slug c = s \<and> dates_paired c
            \<and> (if Course_start_date c = None
               then map_of (Root_self_study_courses r) s = Some c
               else (\<forall>y \<in> set (index_years c). run_year_entry r y s = Some c))"
    if "s \<notin> X" "map_of (Root_courses r) s = Some c" for s c
    using assms(2)[OF that] by simp
  then show ?thesis unfolding indexed_except_def using assms(1,3,4) by blast
qed

lemma index_years_no_start: "Course_start_date c = None \<Longrightarrow> index_years c = []"
  by (simp add: index_years_def)

lemma index_years_dates:
  "Course_start_date c = Some sd \<Longrightarrow> Course_end_date c = Some ed
   \<Longrightarrow> index_years c = [year sd..year ed]"
  by (simp add: index_years_def)

lemma remove_old_course_effect:
  assumes ie: "indexed_except {} r" and old: "map_of (Root_courses r) slug = Some old"
  shows "\<exists>r1. remove_old_course r slug old = (Inr (), r1)
           \<and> Root_courses r1 = Root_courses r \<and> indexed_except {slug} r1"
proof -
  note D = indexed_exceptD[OF ie]
  from D(2)[OF _ old] have so: "Course_slug old = slug" and dp: "dates_paired old"
    and ss: "Course_start_date old = None \<longrightarrow> map_of (Root_self_study_courses r) slug = Some old"
    and ry: "Course_start_date old \<noteq> None \<longrightarrow>
                 (\<forall>y \<in> set (index_years old). run_year_entry r y slug = Some old)"
    by simp_all
  show ?thesis
  proof (cases "Course_start_date old")
    case None
    define r1 where "r1 = r\<lparr>Root_self_study_courses :=
                             AList.delete slug (Root_self_study_courses r)\<rparr>"
    have rm: "remove_old_course r slug old = (Inr (), r1)"
      using None ss by (simp add: remove_old_course_def r1_def)
    have e1: "run_year_entry r1 y s = run_year_entry r y s" for y s
      by (simp add: r1_def run_year_entry_def)
    have s1: "map_of (Root_self_study_courses r1) s
                = (if s = slug then None else map_of (Root_self_study_courses r) s)" for s
      by (simp add: r1_def delete_conv')
    have c1: "Root_courses r1 = Root_courses r" by (simp add: r1_def)
    have d1: "dicts_distinct r1"
      using D(1) by (simp add: dicts_distinct_def r1_def keys_def distinct_delete)
    have "indexed_except {slug} r1"
    proof (rule indexed_exceptI[OF d1])
      fix s c assume a: "s \<notin> {slug}" "map_of (Root_courses r1) s = Some c"
      then have "map_of (Root_courses r) s = Some c" by (simp add: c1)
      from D(2)[OF _ this] a(1)
      show "Course_slug c = s \<and> dates_paired c
            \<and> (Course_start_date c = None \<longrightarrow> map_of (Root_self_study_courses r1) s = Some c)
            \<and> (Course_start_date c \<noteq> None \<longrightarrow>
                 (\<forall>y \<in> set (index_years c). run_year_entry r1 y s = Some c))"
        by (simp add: s1 e1)
    next
      fix s c assume "map_of (Root_self_study_courses r1) s = Some c"
      then have "s \<noteq> slug" "map_of (Root_self_study_courses r) s = Some c"
        by (simp_all add: s1 split: if_splits)
      with D(3)[OF this(2)]
      show "s \<notin> {slug} \<and> map_of (Root_courses r1) s = Some c \<and> Course_start_date c = None"
        by (simp add: c1)
    next
      fix y s c assume "run_year_entry r1 y s = Some c"
      then have e: "run_year_entry r y s = Some c" by (simp add: e1)
      from D(4)[OF e] have m: "map_of (Root_courses r) s = Some c"
        and y: "y \<in> set (index_years c)" by simp_all
      have "s \<noteq> slug"
      proof
        assume "s = slug"
        with m old have "c = old" by simp
        with y None show False by (simp add: index_years_no_start)
      qed
      with m y show "s \<notin> {slug} \<and> map_of (Root_courses r1) s = Some c
                       \<and> y \<in> set (index_years c)"
        by (simp add: c1)
    qed
    with rm c1 show ?thesis by blast
  next
    case (Some sd)
    with dp obtain ed where ed: "Course_end_date old = Some ed"
      by (auto simp: dates_paired_def)
    have iy: "index_years old = [year sd..year ed]" using Some ed by (rule index_years_dates)
    have ne: "\<forall>y \<in> set [year sd..year ed]. run_year_entry r y slug \<noteq> None"
      using ry Some iy by simp
    from del_run_years_effect[OF D(1) _ ne] obtain r1 where
      dl: "del_run_years slug r [year sd..year ed] = (Inr (), r1)"
      and c1: "Root_courses r1 = Root_courses r"
      and s1: "Root_self_study_courses r1 = Root_self_study_courses r"
      and d1: "dicts_distinct r1"
      and e1: "\<forall>y s. run_year_entry r1 y s
                 = (if s = slug \<and> y \<in> set [year sd..year ed] then None
                    else run_year_entry r y s)"
      by auto
    have rm: "remove_old_course r slug old = (Inr (), r1)"
      using Some ed dl by (simp add: remove_old_course_def year_range_def)
    have "indexed_except {slug} r1"
    proof (rule indexed_exceptI[OF d1])
      fix s c assume a: "s \<notin> {slug}" "map_of (Root_courses r1) s = Some c"
      then have "map_of (Root_courses r) s = Some c" by (simp add: c1)
      from D(2)[OF _ this] a(1)
      show "Course_slug c = s \<and> dates_paired c
            \<and> (Course_start_date c = None \<longrightarrow> map_of (Root_self_study_courses r1) s = Some c)
            \<and> (Course_start_date c \<noteq> None \<longrightarrow>
                 (\<forall>y \<in> set (index_years c). run_year_entry r1 y s = Some c))"
        by (simp add: s1 e1)
    next
      fix s c assume "map_of (Root_self_study_courses r1) s = Some c"
      then have m: "map_of (Root_self_study_courses r) s = Some c" by (simp add: s1)
      from D(3)[OF m] have mc: "map_of (Root_courses r) s = Some c"
        and n: "Course_start_date c = None" by simp_all
      have "s \<noteq> slug"
      proof
        assume "s = slug"
        with mc old have "c = old" by simp
        with n Some show False by simp
      qed
      with mc n show "s \<notin> {slug} \<and> map_of (Root_courses r1) s = Some c
                        \<and> Course_start_date c = None"
        by (simp add: c1)
    next
      fix y s c assume a: "run_year_entry r1 y s = Some c"
      then have nb: "\<not> (s = slug \<and> y \<in> set [year sd..year ed])"
        and e: "run_year_entry r y s = Some c"
        using e1 by (auto split: if_splits)
      from D(4)[OF e] have m: "map_of (Root_courses r) s = Some c"
        and y: "y \<in> set (index_years c)" by simp_all
      have "s \<noteq> slug"
      proof
        assume "s = slug"
        with m old have "c = old" by simp
        with y iy nb \<open>s = slug\<close> show False by simp
      qed
      with m y show "s \<notin> {slug} \<and> map_of (Root_courses r1) s = Some c
                       \<and> y \<in> set (index_years c)"
        by (simp add: c1)
    qed
    with rm c1 show ?thesis by blast
  qed
qed

lemma indexed_except_new_slug:
  assumes ie: "indexed_except {} r" and new: "map_of (Root_courses r) slug = None"
  shows "indexed_except {slug} r"
proof -
  note D = indexed_exceptD[OF ie]
  show ?thesis
  proof (rule indexed_exceptI[OF D(1)])
    fix s c assume "s \<notin> {slug}" "map_of (Root_courses r) s = Some c"
    from D(2)[OF _ this(2)]
    show "Course_slug c = s \<and> dates_paired c
            \<and> (Course_start_date c = None \<longrightarrow> map_of (Root_self_study_courses r) s = Some c)
            \<and> (Course_start_date c \<noteq> None \<longrightarrow>
                 (\<forall>y \<in> set (index_years c). run_year_entry r y s = Some c))"
      by simp
  next
    fix s c assume "map_of (Root_self_study_courses r) s = Some c"
    from D(3)[OF this] new
    show "s \<notin> {slug} \<and> map_of (Root_courses r) s = Some c \<and> Course_start_date c = None"
      by auto
  next
    fix y s c assume "run_year_entry r y s = Some c"
    from D(4)[OF this] new
    show "s \<notin> {slug} \<and> map_of (Root_courses r) s = Some c \<and> y \<in> set (index_years c)"
      by auto
  qed
qed

lemma insert_course_effect:
  assumes ie: "indexed_except {Course_slug course} r1" and dp: "dates_paired course"
  shows "\<exists>r'. insert_course r1 course = (Inr (), r')
           \<and> Root_courses r' = AList.update (Course_slug course) course (Root_courses r1)
           \<and> indexed_except {} r'"
proof -
  note D = indexed_exceptD[OF ie]
  define slug where "slug = Course_slug course"
  define r2 where "r2 = r1\<lparr>Root_courses := AList.update slug course (Root_courses r1)\<rparr>"
  have c2: "map_of (Root_courses r2) s = (if s = slug then Some course
                                           else map_of (Root_courses r1) s)" for s
    by (simp add: r2_def update_conv')
  have d2: "dicts_distinct r2"
    using D(1) by (simp add: dicts_distinct_def r2_def keys_def distinct_update)
  have e2: "run_year_entry r2 y s = run_year_entry r1 y s" for y s
    by (simp add: r2_def run_year_entry_def)
  have s2: "Root_self_study_courses r2 = Root_self_study_courses r1" by (simp add: r2_def)
  show ?thesis
  proof (cases "Course_start_date course")
    case None
    define r' where "r' = r2\<lparr>Root_self_study_courses :=
                           AList.update slug course (Root_self_study_courses r2)\<rparr>"
    have ins: "insert_course r1 course = (Inr (), r')"
      using None by (simp add: insert_course_def Let_def r'_def r2_def slug_def)
    have c': "Root_courses r' = AList.update (Course_slug course) course (Root_courses r1)"
      by (simp add: r'_def r2_def slug_def)
    have mc: "map_of (Root_courses r') s = (if s = slug then Some course
                                           else map_of (Root_courses r1) s)" for s
      using c2 by (simp add: r'_def)
    have ms: "map_of (Root_self_study_courses r') s
                = (if s = slug then Some course else map_of (Root_self_study_courses r1) s)" for s
      by (simp add: r'_def update_conv' s2)
    have e': "run_year_entry r' y s = run_year_entry r1 y s" for y s
      using e2 by (simp add: r'_def run_year_entry_def)
    have d': "dicts_distinct r'"
      using d2 by (simp add: dicts_distinct_def r'_def keys_def distinct_update)
    have "indexed_except {} r'"
    proof (rule indexed_exceptI[OF d'])
      fix s c assume a: "map_of (Root_courses r') s = Some c"
      show "Course_slug c = s \<and> dates_paired c
            \<and> (Course_start_date c = None \<longrightarrow> map_of (Root_self_study_courses r') s = Some c)
            \<and> (Course_start_date c \<noteq> None \<longrightarrow>
                 (\<forall>y \<in> set (index_years c). run_year_entry r' y s = Some c))"
      proof (cases "s = slug")
        case True
        with a have "c = course" by (simp add: mc)
        then show ?thesis using True dp None by (simp add: ms slug_def)
      next
        case False
        with a have "map_of (Root_courses r1) s = Some c" by (simp add: mc)
        from D(2)[OF _ this] False show ?thesis by (simp add: ms e' slug_def)
      qed
    next
      fix s c assume a: "map_of (Root_self_study_courses r') s = Some c"
      show "s \<notin> {} \<and> map_of (Root_courses r') s = Some c \<and> Course_start_date c = None"
      proof (cases "s = slug")
        case True
        with a have "c = course" by (simp add: ms)
        then show ?thesis using True None by (simp add: mc)
      next
        case False
        with a have "map_of (Root_self_study_courses r1) s = Some c" by (simp add: ms)
        from D(3)[OF this] False show ?thesis by (simp add: mc)
      qed
    next
      fix y s c assume "run_year_entry r' y s = Some c"
      then have "run_year_entry r1 y s = Some c" by (simp add: e')
      from D(4)[OF this]
      show "s \<notin> {} \<and> map_of (Root_courses r') s = Some c \<and> y \<in> set (index_years c)"
        by (simp add: mc slug_def)
    qed
    with ins c' show ?thesis by blast
  next
    case (Some sd)
    with dp obtain ed where ed: "Course_end_date course = Some ed"
      by (auto simp: dates_paired_def)
    have iy: "index_years course = [year sd..year ed]" using Some ed by (rule index_years_dates)
    define r' where "r' = add_run_years course r2 [year sd..year ed]"
    have ins: "insert_course r1 course = (Inr (), r')"
      using Some ed by (simp add: insert_course_def Let_def r'_def r2_def slug_def year_range_def)
    from add_run_years_effect[OF d2, of course "[year sd..year ed]"] have
      cr: "Root_courses r' = Root_courses r2"
      and sr: "Root_self_study_courses r' = Root_self_study_courses r2"
      and d': "dicts_distinct r'"
      and er: "\<forall>y s. run_year_entry r' y s
                 = (if s = slug \<and> y \<in> set [year sd..year ed] then Some course
                    else run_year_entry r2 y s)"
      unfolding r'_def slug_def by blast+
    have c': "Root_courses r' = AList.update (Course_slug course) course (Root_courses r1)"
      using cr by (simp add: r2_def slug_def)
    have mc: "map_of (Root_courses r') s = (if s = slug then Some course
                                           else map_of (Root_courses r1) s)" for s
      using c2 cr by simp
    have ms: "Root_self_study_courses r' = Root_self_study_courses r1" using sr s2 by simp
    have e': "run_year_entry r' y s
                 = (if s = slug \<and> y \<in> set [year sd..year ed] then Some course
                    else run_year_entry r1 y s)" for y s
      using er e2 by simp
    have "indexed_except {} r'"
    proof (rule indexed_exceptI[OF d'])
      fix s c assume a: "map_of (Root_courses r') s = Some c"
      show "Course_slug c = s \<and> dates_paired c
            \<and> (Course_start_date c = None \<longrightarrow> map_of (Root_self_study_courses r') s = Some c)
            \<and> (Course_start_date c \<noteq> None \<longrightarrow>
                 (\<forall>y \<in> set (index_years c). run_year_entry r' y s = Some c))"
      proof (cases "s = slug")
        case True
        with a have "c = course" by (simp add: mc)
        then show ?thesis using True dp Some iy by (simp add: e' slug_def)
      next
        case False
        with a have "map_of (Root_courses r1) s = Some c" by (simp add: mc)
        from D(2)[OF _ this] False show ?thesis by (simp add: ms e' slug_def)
      qed
    next
      fix s c assume a: "map_of (Root_self_study_courses r') s = Some c"
      then have "map_of (Root_self_study_courses r1) s = Some c" by (simp add: ms)
      from D(3)[OF this]
      show "s \<notin> {} \<and> map_of (Root_courses r') s = Some c \<and> Course_start_date c = None"
        by (simp add: mc slug_def)
    next
      fix y s c assume a: "run_year_entry r' y s = Some c"
      show "s \<notin> {} \<and> map_of (Root_courses r') s = Some c \<and> y \<in> set (index_years c)"
      proof (cases "s = slug \<and> y \<in> set [year sd..year ed]")
        case True
        with a have "c = course" by (simp add: e')
        then show ?thesis using True iy by (simp add: mc)
      next
        case False
        with a have "run_year_entry r1 y s = Some c" by (auto simp: e' split: if_splits)
        from D(4)[OF this] show ?thesis by (simp add: mc slug_def)
      qed
    qed
    with ins c' show ?thesis by blast
  qed
qed

lemma indices_consistent_init: "indices_consistent Root_init"
  by (simp add: indices_consistent_def Root_init_def keys_def)

lemma add_course_consistent:
  assumes "indices_consistent r" and "dates_paired course"
  shows "\<exists>r'. add_course r course = (Inr (), r') \<and> indices_consistent r'
           \<and> map_of (Root_courses r') (Course_slug course) = Some course"
proof -
  from assms(1) have ie: "indexed_except {} r" by (simp add: indices_consistent_iff)
  show ?thesis
  proof (cases "map_of (Root_courses r) (Course_slug course)")
    case None
    from indexed_except_new_slug[OF ie None]
    have "indexed_except {Course_slug course} r" .
    from insert_course_effect[OF this assms(2)] obtain r' where
      "insert_course r course = (Inr (), r')"
      "Root_courses r' = AList.update (Course_slug course) course (Root_courses r)"
      "indexed_except {} r'" by blast
    then show ?thesis using None
      by (simp add: add_course_def indices_consistent_iff update_conv')
  next
    case (Some old)
    from remove_old_course_effect[OF ie Some] obtain r1 where
      rm: "remove_old_course r (Course_slug course) old = (Inr (), r1)"
      and "indexed_except {Course_slug course} r1" by blast
    from insert_course_effect[OF this(2) assms(2)] obtain r' where
      "insert_course r1 course = (Inr (), r')"
      "Root_courses r' = AList.update (Course_slug course) course (Root_courses r1)"
      "indexed_except {} r'" by blast
    then show ?thesis using Some rm
      by (simp add: add_course_def indices_consistent_iff update_conv')
  qed
qed




end
